theory Spec2Isabelle
  imports Complex_Main "HOL-Library.Char_ord" "HOL-Library.List_Lexorder"
begin

section \<open>Data model\<close>

subsection \<open>Payload of the remote listing endpoint\<close>

text \<open>
  A key of a JSON object, as \<^verbatim>\<open>dict.get\<close> sees it: the key is missing, it is present
  with the value \<^verbatim>\<open>null\<close> (Python \<^verbatim>\<open>None\<close>), or it is present with a value.
  \<^verbatim>\<open>d.get(k)\<close> is \<open>get\<close>, \<^verbatim>\<open>d.get(k, default)\<close> is \<open>get_or\<close>: the default
  replaces a missing key only, never a \<^verbatim>\<open>null\<close>.
\<close>

datatype 'a field = Absent | Null | Val 'a

fun get :: "'a field \<Rightarrow> 'a option" where
  "get Absent = None"
| "get Null = None"
| "get (Val v) = Some v"

fun get_or :: "'a field \<Rightarrow> 'a \<Rightarrow> 'a option" where
  "get_or Absent d = Some d"
| "get_or Null d = None"
| "get_or (Val v) d = Some v"

text \<open>
  One user object of \<^verbatim>\<open>data\<close>. The fields have the JSON types the endpoint documents
  (strings, a boolean); \<open>'m\<close> is the type of the \<^verbatim>\<open>public_metrics\<close> object, which the
  program only hands to \<^verbatim>\<open>json.dumps\<close>.
\<close>

record 'm user =
  u_id :: "string field"
  u_username :: "string field"
  u_name :: "string field"
  u_verified :: "bool field"
  u_created_at :: "string field"
  u_description :: "string field"
  u_public_metrics :: "'m field"

text \<open>
  The parsed body of a response: \<^verbatim>\<open>data.get('data', [])\<close> (a missing key is the
  empty list) and \<^verbatim>\<open>data.get('meta', {}).get('next_token')\<close>.
\<close>

record 'm page =
  p_data :: "'m user list"
  p_next_token :: "string option"

text \<open>
  A rate-limit header as the program reads it, by what \<^verbatim>\<open>int(...)\<close> does with its
  text: the header is missing, its text is empty, its text is not an integer literal,
  or it is the literal of a number.
\<close>

datatype header = Missing | Blank | Malformed | Number int

record 'm response =
  status_code :: int
  rate_limit_remaining :: header
  rate_limit_reset :: header
  body :: "'m page"

text \<open>The outcome of one \<^verbatim>\<open>session.get\<close>: a response, or a \<^verbatim>\<open>requests.RequestException\<close>.\<close>

datatype 'm http_event = Response "'m response" | RequestException

record params =
  user_fields :: string
  max_results :: nat
  pagination_token :: "string option"

subsection \<open>The two tables\<close>

record liker_row =
  l_tweet_id :: string
  l_user_id :: string
  l_username :: "string option"
  l_name :: "string option"
  l_verified :: int
  l_created_at :: "string option"
  l_description :: "string option"
  l_profile_url :: string
  l_public_metrics :: string

record state_row =
  s_tweet_id :: string
  s_next_token :: "string option"
  s_done :: int
  s_last_request_time :: "int option"
  s_total_users_found :: int
  s_last_export_time :: int

text \<open>A cell handed to \<^verbatim>\<open>csv.writer\<close>: \<^verbatim>\<open>None\<close>, an integer or a string.\<close>

datatype cell = CNone | CInt int | CStr string

subsection \<open>Configuration and the world the program runs in\<close>

text \<open>
  The module's globals and the environment variables it reads. \<open>export_mode\<close> is
  \<^verbatim>\<open>EXPORT_MODE\<close> (lower-cased by the module), \<open>quick_test\<close> and \<open>test_mode\<close> say
  whether \<^verbatim>\<open>QUICK_TEST\<close> and \<^verbatim>\<open>TEST_MODE\<close> equal \<^verbatim>\<open>"true"\<close>, and \<open>json_dumps\<close>
  is \<^verbatim>\<open>json.dumps\<close> on metrics objects.
\<close>

record 'm config =
  tweet_id :: string
  out_dir :: string
  export_mode :: string
  quick_test :: bool
  test_mode :: bool
  json_dumps :: "'m \<Rightarrow> string"

text \<open>
  What the program does to the outside, in the order it does it: a request (with the
  clock at the time, the tweet of the URL and the query parameters), a
  \<^verbatim>\<open>time.sleep\<close>, a read of the global \<^verbatim>\<open>stop_flag\<close> (with the value read), and a
  CSV file written (path and rows).
\<close>

datatype event =
  Request real string params
| Sleep real
| StopRead bool
| Export string "cell list list"

text \<open>
  The world: the two tables of the database, the clock (\<^verbatim>\<open>time.time()\<close>, in
  seconds), the remote service (the outcome of the k-th request), the random source
  (the k-th draw, as a fraction of the interval) and the stop flag. The signal
  handler sets the flag at any moment and nothing resets it: \<open>stop_after = Some n\<close>
  says that the first \<open>n\<close> reads of the flag see it unset and every later read sees
  it set; \<open>None\<close> says that no signal arrives.
\<close>

record 'm world =
  tbl_likers :: "liker_row list"
  tbl_state :: "state_row list"
  clock :: real
  remote :: "nat \<Rightarrow> 'm http_event"
  sent :: nat
  rand :: "nat \<Rightarrow> real"
  rand_used :: nat
  stop_after :: "nat option"
  stop_reads :: nat
  events :: "event list"

text \<open>An exception that leaves \<^verbatim>\<open>run\<close>, or a normal return.\<close>

datatype exn = ValueError

datatype 'a result = Raise exn | Return 'a

section \<open>Primitive effects\<close>

definition stop_flag_set :: "'m world \<Rightarrow> bool" where
  "stop_flag_set w = (case stop_after w of None \<Rightarrow> False | Some n \<Rightarrow> n \<le> stop_reads w)"

definition read_stop_flag :: "'m world \<Rightarrow> bool \<times> 'm world" where
  "read_stop_flag w =
     (stop_flag_set w,
      w\<lparr>stop_reads := Suc (stop_reads w), events := events w @ [StopRead (stop_flag_set w)]\<rparr>)"

text \<open>
  Time passes in \<^verbatim>\<open>time.sleep\<close> only, by the duration asked for; a request, a
  query and a file write take no time. \<^verbatim>\<open>random.uniform(a, b)\<close> is
  \<open>a + (b - a) * u\<close> for the next draw \<open>u\<close>.
\<close>

definition sleep :: "real \<Rightarrow> 'm world \<Rightarrow> 'm world" where
  "sleep d w = w\<lparr>clock := clock w + d, events := events w @ [Sleep d]\<rparr>"

definition uniform :: "real \<Rightarrow> real \<Rightarrow> 'm world \<Rightarrow> real \<times> 'm world" where
  "uniform a b w = (a + (b - a) * rand w (rand_used w), w\<lparr>rand_used := Suc (rand_used w)\<rparr>)"

text \<open>\<^verbatim>\<open>int(time.time())\<close>: Python's \<^verbatim>\<open>int\<close> truncates towards zero.\<close>

definition time_now :: "'m world \<Rightarrow> int" where
  "time_now w = (if 0 \<le> clock w then \<lfloor>clock w\<rfloor> else \<lceil>clock w\<rceil>)"

definition session_get :: "string \<Rightarrow> params \<Rightarrow> 'm world \<Rightarrow> 'm http_event \<times> 'm world" where
  "session_get tid ps w =
     (remote w (sent w),
      w\<lparr>sent := Suc (sent w), events := events w @ [Request (clock w) tid ps]\<rparr>)"

section \<open>Checkpoint store\<close>

definition select_state :: "string \<Rightarrow> 'm world \<Rightarrow> state_row option" where
  "select_state tid w = find (\<lambda>r. s_tweet_id r = tid) (tbl_state w)"

definition insert_or_ignore_state :: "state_row \<Rightarrow> state_row list \<Rightarrow> state_row list" where
  "insert_or_ignore_state row rows =
     (if list_ex (\<lambda>r. s_tweet_id r = s_tweet_id row) rows then rows else rows @ [row])"

definition get_state :: "string \<Rightarrow> 'm world \<Rightarrow> (string option \<times> bool \<times> int \<times> int) \<times> 'm world" where
  "get_state tid w =
     (case select_state tid w of
        Some row \<Rightarrow>
          ((s_next_token row, s_done row \<noteq> 0, s_total_users_found row, s_last_export_time row), w)
      | None \<Rightarrow>
          ((None, False, 0, 0),
           w\<lparr>tbl_state := insert_or_ignore_state
                \<lparr>s_tweet_id = tid, s_next_token = None, s_done = 0, s_last_request_time = None,
                 s_total_users_found = 0, s_last_export_time = 0\<rparr> (tbl_state w)\<rparr>))"

definition save_state :: "string \<Rightarrow> string option \<Rightarrow> bool \<Rightarrow> int \<Rightarrow> 'm world \<Rightarrow> 'm world" where
  "save_state tid next_token done total_users w =
     (let current_time = time_now w in
      w\<lparr>tbl_state := map (\<lambda>r. if s_tweet_id r = tid
                               then r\<lparr>s_next_token := next_token,
                                      s_done := (if done then 1 else 0),
                                      s_total_users_found := total_users,
                                      s_last_request_time := Some current_time\<rparr>
                               else r) (tbl_state w)\<rparr>)"

definition update_export_time :: "string \<Rightarrow> 'm world \<Rightarrow> 'm world" where
  "update_export_time tid w =
     (let current_time = time_now w in
      w\<lparr>tbl_state := map (\<lambda>r. if s_tweet_id r = tid
                               then r\<lparr>s_last_export_time := current_time\<rparr>
                               else r) (tbl_state w)\<rparr>)"

section \<open>Record store\<close>

text \<open>
  \<^verbatim>\<open>INSERT OR IGNORE\<close>: a row whose \<^verbatim>\<open>user_id\<close> is \<^verbatim>\<open>NULL\<close> (the column is
  \<^verbatim>\<open>NOT NULL\<close>) or whose primary key \<^verbatim>\<open>(tweet_id, user_id)\<close> is already in the
  table is skipped; any other row is added.
\<close>

definition insert_or_ignore_liker ::
  "string \<Rightarrow> string option \<Rightarrow> (string \<Rightarrow> liker_row) \<Rightarrow> liker_row list \<Rightarrow> liker_row list" where
  "insert_or_ignore_liker tid user_id mk rows =
     (case user_id of
        None \<Rightarrow> rows
      | Some uid \<Rightarrow>
          if list_ex (\<lambda>r. l_tweet_id r = tid \<and> l_user_id r = uid) rows then rows
          else rows @ [mk uid])"

definition insert_user :: "'m config \<Rightarrow> string \<Rightarrow> 'm user \<Rightarrow> liker_row list \<Rightarrow> liker_row list" where
  "insert_user cfg tid user rows =
     (let username = get_or (u_username user) [];
          profile_url = (case username of
                           None \<Rightarrow> []
                         | Some n \<Rightarrow> if n \<noteq> [] then ''https://x.com/'' @ n else []);
          public_metrics = (case u_public_metrics user of
                              Absent \<Rightarrow> ''{}''
                            | Null \<Rightarrow> ''null''
                            | Val m \<Rightarrow> json_dumps cfg m)
      in insert_or_ignore_liker tid (get (u_id user))
           (\<lambda>uid. \<lparr>l_tweet_id = tid, l_user_id = uid,
                   l_username = get (u_username user),
                   l_name = get (u_name user),
                   l_verified = (if get (u_verified user) = Some True then 1 else 0),
                   l_created_at = get (u_created_at user),
                   l_description = get_or (u_description user) [],
                   l_profile_url = profile_url,
                   l_public_metrics = public_metrics\<rparr>) rows)"

definition insert_users :: "'m config \<Rightarrow> string \<Rightarrow> 'm user list \<Rightarrow> 'm world \<Rightarrow> 'm world" where
  "insert_users cfg tid users w =
     w\<lparr>tbl_likers := foldl (\<lambda>rows user. insert_user cfg tid user rows) (tbl_likers w) users\<rparr>"

definition count_likers :: "string \<Rightarrow> 'm world \<Rightarrow> nat" where
  "count_likers tid w = length (filter (\<lambda>r. l_tweet_id r = tid) (tbl_likers w))"

text \<open>Whether the table holds a row with the primary key \<open>(tid, uid)\<close>.\<close>

definition has_key :: "string \<Rightarrow> string \<Rightarrow> liker_row list \<Rightarrow> bool" where
  "has_key tid uid rows = list_ex (\<lambda>r. l_tweet_id r = tid \<and> l_user_id r = uid) rows"

section \<open>Page fetcher\<close>

text \<open>Python's truth value of an optional string: \<^verbatim>\<open>None\<close> and \<^verbatim>\<open>""\<close> are false.\<close>

definition truthy :: "string option \<Rightarrow> bool" where
  "truthy s = (case s of None \<Rightarrow> False | Some t \<Rightarrow> t \<noteq> [])"

text \<open>
  \<^verbatim>\<open>int(response.headers.get(name, default))\<close>: \<open>None\<close> stands for the
  \<^verbatim>\<open>ValueError\<close> that \<^verbatim>\<open>int\<close> raises.
\<close>

fun int_header :: "header \<Rightarrow> int \<Rightarrow> int option" where
  "int_header Missing d = Some d"
| "int_header Blank d = None"
| "int_header Malformed d = None"
| "int_header (Number n) d = Some n"

text \<open>The \<^verbatim>\<open>try\<close> block of \<^verbatim>\<open>pace_requests\<close>: either header failing gives \<open>(1, 0)\<close>.\<close>

definition rate_limit_headers :: "'m response \<Rightarrow> int \<times> int" where
  "rate_limit_headers r =
     (case int_header (rate_limit_remaining r) 1 of
        None \<Rightarrow> (1, 0)
      | Some remaining \<Rightarrow>
          (case int_header (rate_limit_reset r) 0 of
             None \<Rightarrow> (1, 0)
           | Some reset \<Rightarrow> (remaining, reset)))"

text \<open>
  The countdown of \<^verbatim>\<open>pace_requests\<close>, with the number of iterations left: the flag
  is read, and the loop is left if it is set; otherwise one second is slept.
\<close>

fun pace_wait :: "nat \<Rightarrow> 'm world \<Rightarrow> 'm world" where
  "pace_wait 0 w = w"
| "pace_wait (Suc n) w =
     (case read_stop_flag w of
        (stop, w1) \<Rightarrow> if stop then w1 else pace_wait n (sleep 1 w1))"

definition pace_requests :: "'m config \<Rightarrow> 'm response \<Rightarrow> 'm world \<Rightarrow> 'm world" where
  "pace_requests cfg r w =
     (case rate_limit_headers r of
        (remaining, reset) \<Rightarrow>
          if quick_test cfg then w
          else if remaining \<le> 1 \<and> reset \<noteq> 0 then
            (let current_time = time_now w;
                 wait_time = max 0 (reset - current_time) + 2
             in pace_wait (nat wait_time) w)
          else if remaining \<le> 5 then
            (case uniform 1 3 w of (delay, w1) \<Rightarrow> sleep delay w1)
          else w)"

definition backoff_sleep :: "nat \<Rightarrow> 'm world \<Rightarrow> 'm world" where
  "backoff_sleep attempt w =
     (case uniform 0 (12 / 10) w of
        (jitter, w1) \<Rightarrow> sleep (min 300 (2 ^ attempt) + jitter) w1)"

text \<open>
  The countdown after a 429, with the number of iterations left: \<open>True\<close> says that
  the flag was read set, on which \<^verbatim>\<open>fetch_page\<close> returns \<^verbatim>\<open>None\<close>.
\<close>

fun countdown_429 :: "nat \<Rightarrow> 'm world \<Rightarrow> bool \<times> 'm world" where
  "countdown_429 0 w = (False, w)"
| "countdown_429 (Suc n) w =
     (case read_stop_flag w of
        (stop, w1) \<Rightarrow> if stop then (True, w1) else countdown_429 n (sleep 1 w1))"

text \<open>
  \<^verbatim>\<open>int(response.headers.get("x-rate-limit-reset", "0") or "0")\<close> of the 429 branch:
  a missing or empty header is 0, and a malformed one raises.
\<close>

fun reset_header_429 :: "header \<Rightarrow> int option" where
  "reset_header_429 Missing = Some 0"
| "reset_header_429 Blank = Some 0"
| "reset_header_429 Malformed = None"
| "reset_header_429 (Number n) = Some n"

text \<open>
  One iteration of the \<^verbatim>\<open>for attempt in range(7)\<close> loop of \<^verbatim>\<open>fetch_page\<close>:
  \<open>Continue\<close> where the source says \<^verbatim>\<open>continue\<close>, \<open>Leave x\<close> where it returns or
  raises. \<^verbatim>\<open>fetch_page\<close> returns the parsed body or \<^verbatim>\<open>None\<close>, so its result is a
  \<open>'m page option\<close>.
\<close>

datatype 'a flow = Continue | Leave 'a

definition fetch_attempt ::
  "'m config \<Rightarrow> string \<Rightarrow> params \<Rightarrow> nat \<Rightarrow> 'm world \<Rightarrow> 'm page option result flow \<times> 'm world" where
  "fetch_attempt cfg tid ps attempt w =
     (case session_get tid ps w of
        (RequestException, w1) \<Rightarrow> (Continue, backoff_sleep attempt w1)
      | (Response r, w1) \<Rightarrow>
          (let w2 = pace_requests cfg r w1 in
           if status_code r = 200 then (Leave (Return (Some (body r))), w2)
           else if status_code r = 429 then
             (case reset_header_429 (rate_limit_reset r) of
                None \<Rightarrow> (Leave (Raise ValueError), w2)
              | Some reset \<Rightarrow>
                  if reset \<noteq> 0 then
                    (let current_time = time_now w2;
                         delay = max 5 (reset - current_time + 2);
                         delay = (if quick_test cfg then 5 else delay)
                     in case countdown_429 (nat delay) w2 of
                          (True, w3) \<Rightarrow> (Leave (Return None), w3)
                        | (False, w3) \<Rightarrow>
                            (case read_stop_flag w3 of
                               (stop, w4) \<Rightarrow>
                                 if stop then (Leave (Return None), w4) else (Continue, w4)))
                  else (Continue, backoff_sleep attempt w2))
           else if 500 \<le> status_code r \<and> status_code r < 600 then
             (Continue, backoff_sleep attempt w2)
           else (Leave (Return None), w2)))"

function fetch_attempts ::
  "'m config \<Rightarrow> string \<Rightarrow> params \<Rightarrow> nat \<Rightarrow> 'm world \<Rightarrow> 'm page option result \<times> 'm world" where
  "fetch_attempts cfg tid ps attempt w =
     (if 7 \<le> attempt then (Return None, w)
      else case fetch_attempt cfg tid ps attempt w of
             (Leave res, w1) \<Rightarrow> (res, w1)
           | (Continue, w1) \<Rightarrow> fetch_attempts cfg tid ps (Suc attempt) w1)"
  by pat_completeness auto
termination
  by (relation "measure (\<lambda>(cfg, tid, ps, attempt, w). 7 - attempt)") auto

declare fetch_attempts.simps [simp del]

definition fetch_params :: "'m config \<Rightarrow> string option \<Rightarrow> params" where
  "fetch_params cfg next_token =
     \<lparr>user_fields = ''id,name,username,verified,created_at,description,public_metrics'',
      max_results = (if test_mode cfg then 2 else if quick_test cfg then 2 else 100),
      pagination_token = (if truthy next_token then next_token else None)\<rparr>"

definition fetch_page ::
  "'m config \<Rightarrow> string \<Rightarrow> string option \<Rightarrow> 'm world \<Rightarrow> 'm page option result \<times> 'm world" where
  "fetch_page cfg tid next_token w = fetch_attempts cfg tid (fetch_params cfg next_token) 0 w"

section \<open>Snapshot exporter\<close>

definition digit_char :: "nat \<Rightarrow> char" where
  "digit_char d = ''0123456789'' ! d"

fun str_nat :: "nat \<Rightarrow> string" where
  "str_nat n = (if n < 10 then [digit_char n] else str_nat (n div 10) @ [digit_char (n mod 10)])"

declare str_nat.simps [simp del]

definition str_int :: "int \<Rightarrow> string" where
  "str_int i = (if i < 0 then CHR ''-'' # str_nat (nat (- i)) else str_nat (nat i))"

text \<open>\<^verbatim>\<open>os.path.join\<close> of a directory and a file name (POSIX).\<close>

definition path_join :: "string \<Rightarrow> string \<Rightarrow> string" where
  "path_join a b =
     (if take 1 b = ''/'' then b
      else if a = [] \<or> drop (length a - 1) a = ''/'' then a @ b
      else a @ ''/'' @ b)"

definition header_row :: "cell list" where
  "header_row = map CStr [''tweet_id'', ''user_id'', ''username'', ''name'', ''verified'',
     ''created_at'', ''description'', ''profile_url'', ''public_metrics'']"

definition opt_cell :: "string option \<Rightarrow> cell" where
  "opt_cell s = (case s of None \<Rightarrow> CNone | Some t \<Rightarrow> CStr t)"

definition csv_row :: "string \<Rightarrow> liker_row \<Rightarrow> cell list" where
  "csv_row tid r =
     [CStr tid, CStr (l_user_id r), opt_cell (l_username r), opt_cell (l_name r),
      CInt (l_verified r), opt_cell (l_created_at r), opt_cell (l_description r),
      CStr (l_profile_url r), CStr (l_public_metrics r)]"

text \<open>\<^verbatim>\<open>SELECT ... FROM likers WHERE tweet_id=? ORDER BY user_id\<close>.\<close>

definition select_likers :: "string \<Rightarrow> 'm world \<Rightarrow> liker_row list" where
  "select_likers tid w = sort_key l_user_id (filter (\<lambda>r. l_tweet_id r = tid) (tbl_likers w))"

definition csv_rows :: "string \<Rightarrow> 'm world \<Rightarrow> cell list list" where
  "csv_rows tid w = header_row # map (csv_row tid) (select_likers tid w)"

definition export_csv_with_connection ::
  "'m config \<Rightarrow> string \<Rightarrow> bool \<Rightarrow> 'm world \<Rightarrow> string \<times> 'm world" where
  "export_csv_with_connection cfg tid main_conn w =
     (let epoch_suffix = (if export_mode cfg = ''final'' then str_int (time_now w) else ''current'');
          csv_path = path_join (out_dir cfg) (tid @ ''_likers_'' @ epoch_suffix @ ''.csv'');
          w1 = w\<lparr>events := events w @ [Export csv_path (csv_rows tid w)]\<rparr>
      in (csv_path, if main_conn then update_export_time tid w1 else w1))"

definition export_csv :: "'m config \<Rightarrow> string \<Rightarrow> 'm world \<Rightarrow> string \<times> 'm world" where
  "export_csv cfg tid w = export_csv_with_connection cfg tid True w"

section \<open>Collection loop\<close>

definition max_pages :: "'m config \<Rightarrow> nat" where
  "max_pages cfg = (if quick_test cfg then 3 else 999999)"

text \<open>
  The body of the \<^verbatim>\<open>while\<close> loop of \<^verbatim>\<open>run\<close> after a page has been fetched: the
  users are inserted and counted, the cursor and the completion flag are taken from
  the page, the checkpoint is saved, and the politeness delay is slept unless the
  page was the last or the stop flag is set.
\<close>

definition process_page ::
  "'m config \<Rightarrow> int \<Rightarrow> 'm page \<Rightarrow> 'm world \<Rightarrow> (string option \<times> bool \<times> int) \<times> 'm world" where
  "process_page cfg total_users pg w =
     (let users = p_data pg;
          w1 = (if users \<noteq> [] then insert_users cfg (tweet_id cfg) users w else w);
          total_users = (if users \<noteq> [] then total_users + int (length users) else total_users);
          next_token = p_next_token pg;
          done = (\<not> truthy next_token);
          w2 = save_state (tweet_id cfg) next_token done total_users w1
      in if done then ((next_token, done, total_users), w2)
         else case read_stop_flag w2 of
                (stop, w3) \<Rightarrow>
                  if stop then ((next_token, done, total_users), w3)
                  else ((next_token, done, total_users), sleep (if quick_test cfg then 1 else 2) w3))"

text \<open>
  The \<^verbatim>\<open>while not done and not stop_flag and page_count < max_pages\<close> loop. It
  returns the loop variables \<open>(next_token, done, total_users, page_count)\<close>.
\<close>

function run_loop ::
  "'m config \<Rightarrow> string option \<Rightarrow> bool \<Rightarrow> int \<Rightarrow> nat \<Rightarrow> 'm world
     \<Rightarrow> (string option \<times> bool \<times> int \<times> nat) result \<times> 'm world" where
  "run_loop cfg next_token done total_users page_count w =
     (if done then (Return (next_token, done, total_users, page_count), w)
      else case read_stop_flag w of
        (stop, w1) \<Rightarrow>
          if stop then (Return (next_token, done, total_users, page_count), w1)
          else if \<not> page_count < max_pages cfg
          then (Return (next_token, done, total_users, page_count), w1)
          else
            (case fetch_page cfg (tweet_id cfg) next_token w1 of
               (Raise e, w2) \<Rightarrow> (Raise e, w2)
             | (Return None, w2) \<Rightarrow>
                 (Return (next_token, done, total_users, Suc page_count),
                  save_state (tweet_id cfg) next_token False total_users w2)
             | (Return (Some pg), w2) \<Rightarrow>
                 (case process_page cfg total_users pg w2 of
                    ((next_token, done, total_users), w3) \<Rightarrow>
                      run_loop cfg next_token done total_users (Suc page_count) w3)))"
  by pat_completeness auto
termination
  by (relation "measure (\<lambda>(cfg, next_token, done, total_users, page_count, w).
                           max_pages cfg - page_count)") auto

declare run_loop.simps [simp del]

definition final_export :: "'m config \<Rightarrow> 'm world \<Rightarrow> 'm world" where
  "final_export cfg w =
     (if export_mode cfg = ''final'' \<or> export_mode cfg = ''periodic'' then
        (let rows = count_likers (tweet_id cfg) w in
         if rows > 0 then snd (export_csv cfg (tweet_id cfg) w) else w)
      else w)"

definition run :: "'m config \<Rightarrow> 'm world \<Rightarrow> unit result \<times> 'm world" where
  "run cfg w =
     (case get_state (tweet_id cfg) w of
        ((next_token, done, total_users, last_export), w1) \<Rightarrow>
          if done then (Return (), snd (export_csv cfg (tweet_id cfg) w1))
          else
            (case run_loop cfg next_token done total_users 0 w1 of
               (Raise e, w2) \<Rightarrow> (Raise e, w2)
             | (Return st, w2) \<Rightarrow>
                 (case read_stop_flag w2 of
                    (stop, w3) \<Rightarrow> (Return (), final_export cfg w3))))"

section \<open>Specification vocabulary\<close>

text \<open>
  A step \<open>waits w w'\<close> is one that only sleeps, draws random numbers and reads the stop
  flag: both tables, the remote service, the number of requests sent and the signal's
  arrival are as before, and the new events are sleeps and reads of the flag.
\<close>

fun wait_event :: "event \<Rightarrow> bool" where
  "wait_event (Sleep d) = True"
| "wait_event (StopRead b) = True"
| "wait_event (Request t tid ps) = False"
| "wait_event (Export path rows) = False"

definition waits :: "'m world \<Rightarrow> 'm world \<Rightarrow> bool" where
  "waits w w' =
     (tbl_likers w' = tbl_likers w \<and> tbl_state w' = tbl_state w \<and> remote w' = remote w \<and>
      sent w' = sent w \<and> rand w' = rand w \<and> stop_after w' = stop_after w \<and>
      stop_reads w \<le> stop_reads w' \<and>
      take (length (events w)) (events w') = events w \<and>
      list_all wait_event (drop (length (events w)) (events w')))"

text \<open>
  Whether the record store skips every record of a payload for the tweet: the record
  has no id, or a row with its id is stored already.
\<close>

definition all_skipped :: "string \<Rightarrow> 'm user list \<Rightarrow> 'm world \<Rightarrow> bool" where
  "all_skipped tid us w =
     list_all (\<lambda>u. case get (u_id u) of None \<Rightarrow> True
                                     | Some uid \<Rightarrow> has_key tid uid (tbl_likers w)) us"

text \<open>
  The checkpoint of a tweet as the loop reads it: cursor, completion flag and count.
\<close>

definition checkpoint :: "string \<Rightarrow> 'm world \<Rightarrow> (string option \<times> bool \<times> int) option" where
  "checkpoint tid w =
     map_option (\<lambda>row. (s_next_token row, s_done row \<noteq> 0, s_total_users_found row))
       (select_state tid w)"

definition checkpoint_done :: "string \<Rightarrow> 'm world \<Rightarrow> bool" where
  "checkpoint_done tid w = (case checkpoint tid w of None \<Rightarrow> False | Some (c, d, n) \<Rightarrow> d)"

text \<open>
  A step \<open>fetches w w'\<close> is one that may also send requests: both tables, the remote
  service and the signal's arrival are as before, and the events of \<open>w\<close> are the first
  events of \<open>w'\<close>.
\<close>

definition fetches :: "'m world \<Rightarrow> 'm world \<Rightarrow> bool" where
  "fetches w w' =
     (tbl_likers w' = tbl_likers w \<and> tbl_state w' = tbl_state w \<and> remote w' = remote w \<and>
      stop_after w' = stop_after w \<and> sent w \<le> sent w' \<and> stop_reads w \<le> stop_reads w' \<and>
      take (length (events w)) (events w') = events w)"

text \<open>
  A step \<open>grows w w'\<close> keeps the events of \<open>w\<close> as the first events of \<open>w'\<close>. The
  files written and the requests sent, in order, are read off the events.
\<close>

definition grows :: "'m world \<Rightarrow> 'm world \<Rightarrow> bool" where
  "grows w w' = (take (length (events w)) (events w') = events w)"

fun exports :: "event list \<Rightarrow> (string \<times> cell list list) list" where
  "exports [] = []"
| "exports (Export path rows # es) = (path, rows) # exports es"
| "exports (Request t tid ps # es) = exports es"
| "exports (Sleep d # es) = exports es"
| "exports (StopRead b # es) = exports es"

fun requests :: "event list \<Rightarrow> (real \<times> params) list" where
  "requests [] = []"
| "requests (Request t tid ps # es) = (t, ps) # requests es"
| "requests (Export path rows # es) = requests es"
| "requests (Sleep d # es) = requests es"
| "requests (StopRead b # es) = requests es"



text \<open>
  Whether the read number \<open>k\<close> of the stop flag (counting from 0) sees it set; the
  outcomes of a request after which \<^verbatim>\<open>fetch_page\<close> backs off and tries again whatever
  the stop flag is (a network error, a 5xx, and a 429 without a reset time); and whether
  each of the next \<open>n\<close> iterations of the attempt loop, from the attempt number
  \<open>attempt\<close> on, ends in \<^verbatim>\<open>continue\<close>.
\<close>

definition flag_set_at :: "nat \<Rightarrow> 'm world \<Rightarrow> bool" where
  "flag_set_at k w = (case stop_after w of None \<Rightarrow> False | Some n \<Rightarrow> n \<le> k)"

fun retry_event :: "'m http_event \<Rightarrow> bool" where
  "retry_event RequestException = True"
| "retry_event (Response r) =
     ((500 \<le> status_code r \<and> status_code r < 600) \<or>
      (status_code r = 429 \<and> reset_header_429 (rate_limit_reset r) = Some 0))"

fun attempts_continue ::
  "'m config \<Rightarrow> string \<Rightarrow> params \<Rightarrow> nat \<Rightarrow> nat \<Rightarrow> 'm world \<Rightarrow> bool" where
  "attempts_continue cfg tid ps attempt 0 w = True"
| "attempts_continue cfg tid ps attempt (Suc n) w =
     (fst (fetch_attempt cfg tid ps attempt w) = Continue \<and>
      attempts_continue cfg tid ps (Suc attempt) n (snd (fetch_attempt cfg tid ps attempt w)))"

section \<open>Concrete worlds\<close>

text \<open>A world whose checkpoint table holds a row of another tweet only.\<close>

definition w_other :: "unit world" where
  "w_other = \<lparr>tbl_likers = [],
     tbl_state = [\<lparr>s_tweet_id = ''7'', s_next_token = Some ''T'', s_done = 0,
                  s_last_request_time = None, s_total_users_found = 5, s_last_export_time = 0\<rparr>],
     clock = 1000, remote = (\<lambda>k. RequestException), sent = 0, rand = (\<lambda>k. 0), rand_used = 0,
     stop_after = None, stop_reads = 0, events = []\<rparr>"

definition cfg_final :: "unit config" where
  "cfg_final = \<lparr>tweet_id = ''42'', out_dir = ''.'', export_mode = ''final'',
     quick_test = False, test_mode = False, json_dumps = (\<lambda>m. ''{}'')\<rparr>"

text \<open>The user object \<^verbatim>\<open>{"id": i}\<close>.\<close>

definition user_of_id :: "string \<Rightarrow> 'm user" where
  "user_of_id i = \<lparr>u_id = Val i, u_username = Absent, u_name = Absent, u_verified = Absent,
     u_created_at = Absent, u_description = Absent, u_public_metrics = Absent\<rparr>"

text \<open>A world whose record store holds the users b, a and c of tweet 42, in this order.\<close>

definition w_three :: "unit world" where
  "w_three = insert_users cfg_final ''42'' [user_of_id ''b'', user_of_id ''a'', user_of_id ''c'']
     w_other"

text \<open>
  A world in which the first page of tweet 42, holding the user a, has been ingested
  and checkpointed with the cursor X; and that page's user again as a last page.
\<close>

definition w_seen :: "unit world" where
  "w_seen = save_state ''42'' (Some ''X'') False 1
     (insert_users cfg_final ''42'' [user_of_id ''a''] (snd (get_state ''42'' w_other)))"

definition page_again :: "unit page" where
  "page_again = \<lparr>p_data = [user_of_id ''a''], p_next_token = None\<rparr>"

text \<open>
  A fresh database and a remote service that answers every request with status 404 and
  no rate-limit headers; no signal arrives.
\<close>

definition r_404 :: "unit response" where
  "r_404 = \<lparr>status_code = 404, rate_limit_remaining = Missing, rate_limit_reset = Missing,
     body = \<lparr>p_data = [], p_next_token = None\<rparr>\<rparr>"

definition w_404 :: "unit world" where
  "w_404 = \<lparr>tbl_likers = [], tbl_state = [], clock = 1000, remote = (\<lambda>k. Response r_404),
     sent = 0, rand = (\<lambda>k. 1 / 2), rand_used = 0, stop_after = None, stop_reads = 0,
     events = []\<rparr>"

text \<open>
  A fresh database and a remote service that answers every request with status 429,
  no calls remaining and the reset time 2000; the signal arrives after the third read
  of the stop flag.
\<close>

definition r_429 :: "unit response" where
  "r_429 = \<lparr>status_code = 429, rate_limit_remaining = Number 0, rate_limit_reset = Number 2000,
     body = \<lparr>p_data = [], p_next_token = None\<rparr>\<rparr>"

definition w_stopped :: "unit world" where
  "w_stopped = \<lparr>tbl_likers = [], tbl_state = [], clock = 1000, remote = (\<lambda>k. Response r_429),
     sent = 0, rand = (\<lambda>k. 1 / 2), rand_used = 0, stop_after = Some 3, stop_reads = 0,
     events = []\<rparr>"

text \<open>
  A tweet nobody liked: a fresh database and a remote service that answers with an
  empty last page.
\<close>

definition r_empty :: "unit response" where
  "r_empty = \<lparr>status_code = 200, rate_limit_remaining = Number 70, rate_limit_reset = Number 2000,
     body = \<lparr>p_data = [], p_next_token = None\<rparr>\<rparr>"

definition w_no_likes :: "unit world" where
  "w_no_likes = \<lparr>tbl_likers = [], tbl_state = [], clock = 1000, remote = (\<lambda>k. Response r_empty),
     sent = 0, rand = (\<lambda>k. 1 / 2), rand_used = 0, stop_after = None, stop_reads = 0,
     events = []\<rparr>"

text \<open>
  The two pages of the end-to-end scenario, and the row the record store holds for a
  user object that has an id only.
\<close>

definition page_ab :: "'m page" where
  "page_ab = \<lparr>p_data = [user_of_id ''a'', user_of_id ''b''], p_next_token = Some ''X''\<rparr>"

definition page_c :: "'m page" where
  "page_c = \<lparr>p_data = [user_of_id ''c''], p_next_token = None\<rparr>"

definition bare_row :: "string \<Rightarrow> string \<Rightarrow> liker_row" where
  "bare_row tid uid = \<lparr>l_tweet_id = tid, l_user_id = uid, l_username = None, l_name = None,
     l_verified = 0, l_created_at = None, l_description = Some [], l_profile_url = [],
     l_public_metrics = ''{}''\<rparr>"

text \<open>
  A fresh database and a remote service that answers the first request with the first
  page and every later one with the second, both without rate-limit headers.
\<close>

definition w_two_pages :: "unit world" where
  "w_two_pages = \<lparr>tbl_likers = [], tbl_state = [], clock = 1000,
     remote = (\<lambda>k. Response \<lparr>status_code = 200, rate_limit_remaining = Missing,
                               rate_limit_reset = Missing,
                               body = (if k = 0 then page_ab else page_c)\<rparr>),
     sent = 0, rand = (\<lambda>k. 1 / 2), rand_used = 0, stop_after = None, stop_reads = 0,
     events = []\<rparr>"

text \<open>
  The configuration of a quick test, and a fresh database with a remote service whose
  first answer is the first page with no calls remaining and the reset time 1003, three
  seconds after the clock; every later answer is the second page.
\<close>

definition cfg_quick :: "unit config" where
  "cfg_quick = \<lparr>tweet_id = ''42'', out_dir = ''.'', export_mode = ''final'',
     quick_test = True, test_mode = False, json_dumps = (\<lambda>m. ''{}'')\<rparr>"



section \<open>Properties of the checkpoint store\<close>

lemma find_None_map_id:
  "find (\<lambda>r. s_tweet_id r = tid) rows = None \<Longrightarrow>
   map (\<lambda>r. if s_tweet_id r = tid then f r else r) rows = rows"
  by (induction rows) (auto split: if_splits)

lemma find_None_not_ex:
  "find (\<lambda>r. s_tweet_id r = tid) rows = None \<Longrightarrow> \<not> list_ex (\<lambda>r. s_tweet_id r = tid) rows"
  by (induction rows) (auto split: if_splits)

lemma find_snoc:
  "find P rows = None \<Longrightarrow> P x \<Longrightarrow> find P (rows @ [x]) = Some x"
  by (induction rows) (auto split: if_splits)

text \<open>
  Claim C10. For a tweet that has no row in the checkpoint table, \<open>save_state\<close>
  returns (the model has no failing branch: the \<^verbatim>\<open>UPDATE\<close> matches no row) and
  leaves the whole world, so the whole checkpoint table, as it was: no row is created.
  Once \<open>get_state\<close> has created the row, the same call stores its arguments and the
  clock in it.
\<close>

theorem save_state_without_row:
  assumes "select_state tid w = None"
  shows "save_state tid next_token done total_users w = w \<and>
         select_state tid (save_state tid next_token done total_users (snd (get_state tid w))) =
           Some \<lparr>s_tweet_id = tid, s_next_token = next_token, s_done = (if done then 1 else 0),
                 s_last_request_time = Some (time_now w), s_total_users_found = total_users,
                 s_last_export_time = 0\<rparr>"
proof
  from assms have none: "find (\<lambda>r. s_tweet_id r = tid) (tbl_state w) = None"
    by (simp add: select_state_def)
  then show "save_state tid next_token done total_users w = w"
    by (simp add: save_state_def find_None_map_id)
  from none have fresh: "\<not> list_ex (\<lambda>r. s_tweet_id r = tid) (tbl_state w)"
    by (rule find_None_not_ex)
  show "select_state tid (save_state tid next_token done total_users (snd (get_state tid w))) =
           Some \<lparr>s_tweet_id = tid, s_next_token = next_token, s_done = (if done then 1 else 0),
                 s_last_request_time = Some (time_now w), s_total_users_found = total_users,
                 s_last_export_time = 0\<rparr>"
    using none fresh
    by (simp add: get_state_def select_state_def insert_or_ignore_state_def save_state_def
        time_now_def Let_def find_None_map_id find_snoc)
qed

theorem save_state_without_row_witness:
  "select_state ''42'' w_other = None \<and>
   save_state ''42'' (Some ''X'') False 3 w_other = w_other \<and>
   select_state ''42'' (save_state ''42'' (Some ''X'') False 3 (snd (get_state ''42'' w_other))) =
     Some \<lparr>s_tweet_id = ''42'', s_next_token = Some ''X'', s_done = 0,
           s_last_request_time = Some 1000, s_total_users_found = 3, s_last_export_time = 0\<rparr>"
proof -
  have h: "select_state ''42'' w_other = None"
    by (simp add: select_state_def w_other_def)
  have t: "time_now w_other = 1000"
    by (simp add: time_now_def w_other_def)
  show ?thesis
    using h t save_state_without_row [OF h, of "Some ''X''" False 3] by simp
qed

section \<open>Properties of the record store\<close>

lemma insert_or_ignore_liker_keeps:
  "has_key tid uid rows \<Longrightarrow> has_key tid uid (insert_or_ignore_liker tid' k mk rows)"
  by (auto simp: has_key_def insert_or_ignore_liker_def list_ex_iff split: option.splits)

lemma insert_user_keeps:
  "has_key tid uid rows \<Longrightarrow> has_key tid uid (insert_user cfg tid' u rows)"
  by (simp add: insert_user_def Let_def insert_or_ignore_liker_keeps)

lemma insert_user_has_key:
  "get (u_id u) = Some uid \<Longrightarrow> has_key tid uid (insert_user cfg tid u rows)"
  by (auto simp: insert_user_def Let_def has_key_def insert_or_ignore_liker_def list_ex_iff)

lemma foldl_insert_keeps:
  "has_key tid uid rows \<Longrightarrow>
   has_key tid uid (foldl (\<lambda>rows user. insert_user cfg tid' user rows) rows us)"
  by (induction us arbitrary: rows) (auto simp: insert_user_keeps)

lemma foldl_insert_has_key:
  "u \<in> set us \<Longrightarrow> get (u_id u) = Some uid \<Longrightarrow>
   has_key tid uid (foldl (\<lambda>rows user. insert_user cfg tid user rows) rows us)"
  by (induction us arbitrary: rows) (auto simp: insert_user_has_key foldl_insert_keeps)

lemma insert_user_present:
  "get (u_id u) = Some uid \<Longrightarrow> has_key tid uid rows \<Longrightarrow> insert_user cfg tid u rows = rows"
  by (simp add: insert_user_def Let_def has_key_def insert_or_ignore_liker_def)

lemma insert_user_no_id:
  "get (u_id u) = None \<Longrightarrow> insert_user cfg tid u rows = rows"
  by (simp add: insert_user_def Let_def insert_or_ignore_liker_def)

text \<open>
  Claim C2. Once a batch holding the record \<open>u\<close> has been inserted for a tweet,
  inserting a record \<open>u'\<close> with the same id for that tweet (the same record again, or
  one whose other fields differ), in a later call or at the end of the same batch,
  leaves the whole world as it was: the stored rows are not overwritten, and the number
  of rows of the tweet is unchanged. \<open>insert_users\<close> has no failing branch.
\<close>

theorem insert_users_duplicate_noop:
  assumes "get (u_id u') = get (u_id u)" and "u \<in> set us"
  shows "insert_users cfg tid [u'] (insert_users cfg tid us w) = insert_users cfg tid us w \<and>
         insert_users cfg tid (us @ [u']) w = insert_users cfg tid us w \<and>
         count_likers tid (insert_users cfg tid [u'] (insert_users cfg tid us w)) =
           count_likers tid (insert_users cfg tid us w)"
proof -
  let ?rows = "foldl (\<lambda>rows user. insert_user cfg tid user rows) (tbl_likers w) us"
  have same: "insert_user cfg tid u' ?rows = ?rows"
  proof (cases "get (u_id u)")
    case None
    with assms(1) show ?thesis by (simp add: insert_user_no_id)
  next
    case (Some uid)
    with assms(2) have "has_key tid uid ?rows" by (simp add: foldl_insert_has_key)
    with Some assms(1) show ?thesis by (simp add: insert_user_present)
  qed
  then have one: "insert_users cfg tid [u'] (insert_users cfg tid us w) = insert_users cfg tid us w"
    by (simp add: insert_users_def)
  from same have two: "insert_users cfg tid (us @ [u']) w = insert_users cfg tid us w"
    by (simp add: insert_users_def)
  from one two show ?thesis by simp
qed

theorem insert_users_duplicate_noop_witness:
  "tbl_likers (insert_users cfg_final ''42''
      [(user_of_id ''a'')\<lparr>u_username := Val ''renamed'', u_verified := Val True\<rparr>]
      (insert_users cfg_final ''42'' [user_of_id ''a'', user_of_id ''b''] w_other)) =
   tbl_likers (insert_users cfg_final ''42'' [user_of_id ''a'', user_of_id ''b''] w_other) \<and>
   map l_username
     (tbl_likers (insert_users cfg_final ''42'' [user_of_id ''a'', user_of_id ''b''] w_other)) =
     [None, None] \<and>
   count_likers ''42'' (insert_users cfg_final ''42''
      [(user_of_id ''a'')\<lparr>u_username := Val ''renamed'', u_verified := Val True\<rparr>]
      (insert_users cfg_final ''42'' [user_of_id ''a'', user_of_id ''b''] w_other)) = 2"
proof -
  have h: "get (u_id ((user_of_id ''a'')\<lparr>u_username := Val ''renamed'', u_verified := Val True\<rparr>)) =
           get (u_id (user_of_id ''a'' :: unit user))"
    by (simp add: user_of_id_def)
  have m: "user_of_id ''a'' \<in> set [user_of_id ''a'', user_of_id ''b'' :: unit user]"
    by simp
  have c: "count_likers ''42''
             (insert_users cfg_final ''42'' [user_of_id ''a'', user_of_id ''b''] w_other) = 2"
    by (simp add: count_likers_def insert_users_def insert_user_def insert_or_ignore_liker_def
        user_of_id_def w_other_def)
  have n: "map l_username
             (tbl_likers (insert_users cfg_final ''42'' [user_of_id ''a'', user_of_id ''b''] w_other)) =
           [None, None]"
    by (simp add: insert_users_def insert_user_def insert_or_ignore_liker_def
        user_of_id_def w_other_def)
  show ?thesis
    using insert_users_duplicate_noop [OF h m, of cfg_final "''42''" w_other] c n by simp
qed

section \<open>Properties of the snapshot exporter\<close>

lemma select_likers_sorted: "sorted (map l_user_id (select_likers tid w))"
  by (simp add: select_likers_def)

lemma select_likers_set:
  "set (select_likers tid w) = {r \<in> set (tbl_likers w). l_tweet_id r = tid}"
  by (auto simp: select_likers_def)

lemma select_likers_length: "length (select_likers tid w) = count_likers tid w"
  by (simp add: select_likers_def count_likers_def)

text \<open>
  Claim C7. An export writes one file, whose rows are the fixed header row followed
  by one row for each record of the tweet, in ascending order of the record id; it
  leaves the record store as it was. So an export from any world \<open>w'\<close> with the same
  record store (the world after a first export, at a later time, under another export
  mode or connection) writes the same rows; only the path may differ.
\<close>

theorem export_deterministic:
  fixes w w' :: "'m world"
  assumes "tbl_likers w' = tbl_likers w"
  shows "events (snd (export_csv_with_connection cfg tid mc w)) =
           events w @ [Export (fst (export_csv_with_connection cfg tid mc w)) (csv_rows tid w)] \<and>
         events (snd (export_csv_with_connection cfg' tid mc' w')) =
           events w' @ [Export (fst (export_csv_with_connection cfg' tid mc' w')) (csv_rows tid w)] \<and>
         tbl_likers (snd (export_csv_with_connection cfg tid mc w)) = tbl_likers w \<and>
         csv_rows tid w = header_row # map (csv_row tid) (select_likers tid w) \<and>
         sorted (map l_user_id (select_likers tid w)) \<and>
         set (select_likers tid w) = {r \<in> set (tbl_likers w). l_tweet_id r = tid} \<and>
         length (select_likers tid w) = count_likers tid w"
proof -
  have ev: "events (snd (export_csv_with_connection c tid m v)) =
            events v @ [Export (fst (export_csv_with_connection c tid m v)) (csv_rows tid v)]"
    for c m and v :: "'m world"
    by (simp add: export_csv_with_connection_def Let_def update_export_time_def)
  have rows: "csv_rows tid w' = csv_rows tid w"
    using assms by (simp add: csv_rows_def select_likers_def)
  have keep: "tbl_likers (snd (export_csv_with_connection cfg tid mc w)) = tbl_likers w"
    by (simp add: export_csv_with_connection_def Let_def update_export_time_def)
  show ?thesis
    using ev [of cfg mc w] ev [of cfg' mc' w'] rows keep
    by (simp add: csv_rows_def select_likers_sorted select_likers_set select_likers_length)
qed

theorem export_deterministic_witness:
  "tbl_likers (sleep 60 (snd (export_csv cfg_final ''42'' w_three))) = tbl_likers w_three \<and>
   events (snd (export_csv cfg_final ''42'' w_three)) =
     [Export ''./42_likers_1000.csv'' (csv_rows ''42'' w_three)] \<and>
   events (snd (export_csv cfg_final ''42'' (sleep 60 (snd (export_csv cfg_final ''42'' w_three))))) =
     [Export ''./42_likers_1000.csv'' (csv_rows ''42'' w_three), Sleep 60,
      Export ''./42_likers_1060.csv'' (csv_rows ''42'' w_three)] \<and>
   map (\<lambda>row. row ! 1) (csv_rows ''42'' w_three) =
     [CStr ''user_id'', CStr ''a'', CStr ''b'', CStr ''c'']"
proof -
  let ?w' = "sleep 60 (snd (export_csv cfg_final ''42'' w_three))"
  have h: "tbl_likers ?w' = tbl_likers w_three"
    by (simp add: sleep_def export_csv_def export_csv_with_connection_def Let_def
        update_export_time_def)
  have e: "events w_three = []"
    by (simp add: w_three_def insert_users_def w_other_def)
  have p1: "fst (export_csv_with_connection cfg_final ''42'' True w_three) = ''./42_likers_1000.csv''"
    by (simp add: export_csv_with_connection_def Let_def cfg_final_def path_join_def
        time_now_def w_three_def insert_users_def w_other_def str_int_def str_nat.simps
        digit_char_def)
  have p2: "fst (export_csv_with_connection cfg_final ''42'' True ?w') = ''./42_likers_1060.csv''"
    by (simp add: export_csv_with_connection_def Let_def cfg_final_def path_join_def
        time_now_def w_three_def insert_users_def w_other_def str_int_def str_nat.simps
        digit_char_def sleep_def export_csv_def update_export_time_def)
  have e': "events ?w' = [Export ''./42_likers_1000.csv'' (csv_rows ''42'' w_three), Sleep 60]"
    using e p1
    by (simp add: sleep_def export_csv_def export_csv_with_connection_def Let_def
        update_export_time_def)
  have r: "map (\<lambda>row. row ! 1) (csv_rows ''42'' w_three) =
           [CStr ''user_id'', CStr ''a'', CStr ''b'', CStr ''c'']"
    by (simp add: csv_rows_def header_row_def csv_row_def select_likers_def w_three_def
        insert_users_def insert_user_def insert_or_ignore_liker_def user_of_id_def w_other_def)
  show ?thesis
    using export_deterministic [OF h, of cfg_final "''42''" True cfg_final True] h e e' p1 p2 r
    by (simp add: export_csv_def)
qed

section \<open>Frame properties of waiting\<close>

lemma waits_iff:
  "waits w w' \<longleftrightarrow>
     tbl_likers w' = tbl_likers w \<and> tbl_state w' = tbl_state w \<and> remote w' = remote w \<and>
     sent w' = sent w \<and> rand w' = rand w \<and> stop_after w' = stop_after w \<and>
     stop_reads w \<le> stop_reads w' \<and>
     (\<exists>es. events w' = events w @ es \<and> list_all wait_event es)"
proof -
  have "(take (length (events w)) (events w') = events w \<and>
         list_all wait_event (drop (length (events w)) (events w'))) \<longleftrightarrow>
        (\<exists>es. events w' = events w @ es \<and> list_all wait_event es)"
  proof
    assume a: "take (length (events w)) (events w') = events w \<and>
         list_all wait_event (drop (length (events w)) (events w'))"
    have "events w' = take (length (events w)) (events w') @ drop (length (events w)) (events w')"
      by simp
    with a have "events w' = events w @ drop (length (events w)) (events w')" by simp
    with a show "\<exists>es. events w' = events w @ es \<and> list_all wait_event es" by blast
  next
    assume "\<exists>es. events w' = events w @ es \<and> list_all wait_event es"
    then show "take (length (events w)) (events w') = events w \<and>
         list_all wait_event (drop (length (events w)) (events w'))" by auto
  qed
  then show ?thesis unfolding waits_def by blast
qed

lemma waits_refl: "waits w w"
  by (simp add: waits_iff)

lemma waits_trans: "waits w w' \<Longrightarrow> waits w' w'' \<Longrightarrow> waits w w''"
  by (auto simp: waits_iff)

lemma waits_sleep: "waits w (sleep d w)"
  by (simp add: waits_iff sleep_def)

lemma waits_read_stop_flag: "waits w (snd (read_stop_flag w))"
  by (simp add: waits_iff read_stop_flag_def)

lemma waits_uniform: "waits w (snd (uniform a b w))"
  by (simp add: waits_iff uniform_def)

lemma waits_pace_wait: "waits w (pace_wait n w)"
proof (induction n arbitrary: w)
  case 0
  show ?case by (simp add: waits_refl)
next
  case (Suc n)
  have a: "waits w (snd (read_stop_flag w))" by (rule waits_read_stop_flag)
  have b: "waits (snd (read_stop_flag w)) (pace_wait n (sleep 1 (snd (read_stop_flag w))))"
    by (rule waits_trans [OF waits_sleep Suc.IH])
  show ?case
    using a waits_trans [OF a b] by (simp add: split_beta)
qed

lemma waits_countdown_429: "waits w (snd (countdown_429 n w))"
proof (induction n arbitrary: w)
  case 0
  show ?case by (simp add: waits_refl)
next
  case (Suc n)
  have a: "waits w (snd (read_stop_flag w))" by (rule waits_read_stop_flag)
  have b: "waits (snd (read_stop_flag w)) (snd (countdown_429 n (sleep 1 (snd (read_stop_flag w)))))"
    by (rule waits_trans [OF waits_sleep Suc.IH])
  show ?case
    using a waits_trans [OF a b] by (simp add: split_beta)
qed

lemma waits_backoff_sleep: "waits w (backoff_sleep attempt w)"
  unfolding backoff_sleep_def split_beta
  by (rule waits_trans [OF waits_uniform waits_sleep])

lemma waits_pace_requests: "waits w (pace_requests cfg r w)"
  unfolding pace_requests_def split_beta Let_def
  by (auto intro: waits_refl waits_pace_wait waits_trans [OF waits_uniform waits_sleep])

lemma waits_stop_flag_set: "waits w w' \<Longrightarrow> stop_flag_set w \<Longrightarrow> stop_flag_set w'"
  by (auto simp: waits_def stop_flag_set_def split: option.splits)

lemma waits_no_signal: "waits w w' \<Longrightarrow> stop_after w = None \<Longrightarrow> \<not> stop_flag_set w'"
  by (auto simp: waits_def stop_flag_set_def split: option.splits)

lemma pace_requests_frame [simp]:
  "tbl_likers (pace_requests cfg r w) = tbl_likers w"
  "tbl_state (pace_requests cfg r w) = tbl_state w"
  "remote (pace_requests cfg r w) = remote w"
  "sent (pace_requests cfg r w) = sent w"
  "rand (pace_requests cfg r w) = rand w"
  "stop_after (pace_requests cfg r w) = stop_after w"
  using waits_pace_requests [of w cfg r] by (simp_all add: waits_def)

section \<open>Properties of the collection loop\<close>

lemma find_map_update:
  "(\<And>r. s_tweet_id (f r) = s_tweet_id r) \<Longrightarrow>
   find (\<lambda>r. s_tweet_id r = tid) (map (\<lambda>r. if s_tweet_id r = tid then f r else r) rows) =
   map_option f (find (\<lambda>r. s_tweet_id r = tid) rows)"
  by (induction rows) auto

lemma select_state_save_state:
  "select_state tid (save_state tid nt d n w) =
   map_option (\<lambda>r. r\<lparr>s_next_token := nt, s_done := (if d then 1 else 0),
                      s_total_users_found := n, s_last_request_time := Some (time_now w)\<rparr>)
     (select_state tid w)"
  by (simp add: select_state_def save_state_def Let_def find_map_update)

lemma select_state_cong: "tbl_state w' = tbl_state w \<Longrightarrow> select_state tid w' = select_state tid w"
  by (simp add: select_state_def)

lemma save_state_frame [simp]:
  "tbl_likers (save_state tid nt d n w) = tbl_likers w"
  "remote (save_state tid nt d n w) = remote w"
  "sent (save_state tid nt d n w) = sent w"
  "stop_after (save_state tid nt d n w) = stop_after w"
  "stop_reads (save_state tid nt d n w) = stop_reads w"
  "events (save_state tid nt d n w) = events w"
  "clock (save_state tid nt d n w) = clock w"
  by (simp_all add: save_state_def Let_def)

lemma insert_users_frame [simp]:
  "tbl_state (insert_users cfg tid us w) = tbl_state w"
  "remote (insert_users cfg tid us w) = remote w"
  "sent (insert_users cfg tid us w) = sent w"
  "stop_after (insert_users cfg tid us w) = stop_after w"
  "stop_reads (insert_users cfg tid us w) = stop_reads w"
  "events (insert_users cfg tid us w) = events w"
  "clock (insert_users cfg tid us w) = clock w"
  by (simp_all add: insert_users_def)

lemma time_now_cong: "clock w' = clock w \<Longrightarrow> time_now w' = time_now w"
  by (simp add: time_now_def)

lemma process_page_result:
  "fst (process_page cfg total_users pg w) =
     (p_next_token pg, \<not> truthy (p_next_token pg), total_users + int (length (p_data pg)))"
  by (simp add: process_page_def Let_def split_beta)

lemma process_page_tbl_state:
  "tbl_state (snd (process_page cfg total_users pg w)) =
   tbl_state (save_state (tweet_id cfg) (p_next_token pg) (\<not> truthy (p_next_token pg))
     (total_users + int (length (p_data pg))) w)"
  by (simp add: process_page_def Let_def split_beta read_stop_flag_def sleep_def save_state_def
      time_now_def insert_users_def)

lemma process_page_tbl_likers:
  "tbl_likers (snd (process_page cfg total_users pg w)) =
   tbl_likers (insert_users cfg (tweet_id cfg) (p_data pg) w)"
  by (simp add: process_page_def Let_def split_beta read_stop_flag_def sleep_def insert_users_def)

lemma foldl_insert_all_present:
  "list_all (\<lambda>u. case get (u_id u) of None \<Rightarrow> True | Some uid \<Rightarrow> has_key tid uid rows) us \<Longrightarrow>
   foldl (\<lambda>rows user. insert_user cfg tid user rows) rows us = rows"
  by (induction us) (auto simp: insert_user_present insert_user_no_id split: option.splits)

text \<open>
  Claim C9. After a page has been processed, the count kept by the loop and saved in
  the checkpoint row is the previous count plus the number of records of the payload,
  whether the store took them or not. When the store skips every record of a
  non-empty payload (a page fetched again), the store is as before, so a count that
  was not below the number of stored rows is now above it.
\<close>

theorem process_page_counts_payload:
  assumes "select_state (tweet_id cfg) w = Some row"
  shows "fst (process_page cfg total_users pg w) =
           (p_next_token pg, \<not> truthy (p_next_token pg), total_users + int (length (p_data pg))) \<and>
         select_state (tweet_id cfg) (snd (process_page cfg total_users pg w)) =
           Some (row\<lparr>s_next_token := p_next_token pg,
                     s_done := (if truthy (p_next_token pg) then 0 else 1),
                     s_total_users_found := total_users + int (length (p_data pg)),
                     s_last_request_time := Some (time_now w)\<rparr>) \<and>
         (all_skipped (tweet_id cfg) (p_data pg) w \<longrightarrow>
            tbl_likers (snd (process_page cfg total_users pg w)) = tbl_likers w) \<and>
         (all_skipped (tweet_id cfg) (p_data pg) w \<and> p_data pg \<noteq> [] \<and>
          int (count_likers (tweet_id cfg) w) \<le> total_users \<longrightarrow>
            int (count_likers (tweet_id cfg) (snd (process_page cfg total_users pg w))) <
            total_users + int (length (p_data pg)))"
proof -
  have st: "select_state (tweet_id cfg) (snd (process_page cfg total_users pg w)) =
           Some (row\<lparr>s_next_token := p_next_token pg,
                     s_done := (if truthy (p_next_token pg) then 0 else 1),
                     s_total_users_found := total_users + int (length (p_data pg)),
                     s_last_request_time := Some (time_now w)\<rparr>)"
    using assms
    by (simp add: select_state_cong [OF process_page_tbl_state] select_state_save_state)
  have keep: "tbl_likers (snd (process_page cfg total_users pg w)) = tbl_likers w"
    if "all_skipped (tweet_id cfg) (p_data pg) w"
    using that
    by (simp add: process_page_tbl_likers insert_users_def all_skipped_def foldl_insert_all_present)
  have cnt: "count_likers (tweet_id cfg) (snd (process_page cfg total_users pg w)) =
             count_likers (tweet_id cfg) w"
    if "all_skipped (tweet_id cfg) (p_data pg) w"
    using keep [OF that] by (simp add: count_likers_def)
  have more: "int (count_likers (tweet_id cfg) (snd (process_page cfg total_users pg w))) <
              total_users + int (length (p_data pg))"
    if a: "all_skipped (tweet_id cfg) (p_data pg) w" and b: "p_data pg \<noteq> []"
      and c: "int (count_likers (tweet_id cfg) w) \<le> total_users"
  proof -
    from b have "0 < length (p_data pg)" by simp
    then have "1 \<le> int (length (p_data pg))" by linarith
    with c show ?thesis unfolding cnt [OF a] by linarith
  qed
  show ?thesis
    using st keep more by (simp add: process_page_result)
qed

theorem process_page_counts_payload_witness:
  "select_state ''42'' w_seen =
     Some \<lparr>s_tweet_id = ''42'', s_next_token = Some ''X'', s_done = 0,
           s_last_request_time = Some 1000, s_total_users_found = 1, s_last_export_time = 0\<rparr> \<and>
   all_skipped ''42'' (p_data page_again) w_seen \<and>
   select_state ''42'' (snd (process_page cfg_final 1 page_again w_seen)) =
     Some \<lparr>s_tweet_id = ''42'', s_next_token = None, s_done = 1,
           s_last_request_time = Some 1000, s_total_users_found = 2, s_last_export_time = 0\<rparr> \<and>
   count_likers ''42'' w_seen = 1 \<and>
   count_likers ''42'' (snd (process_page cfg_final 1 page_again w_seen)) < 2"
proof -
  have t: "tweet_id cfg_final = ''42''"
    by (simp add: cfg_final_def)
  have h: "select_state (tweet_id cfg_final) w_seen =
     Some \<lparr>s_tweet_id = ''42'', s_next_token = Some ''X'', s_done = 0,
           s_last_request_time = Some 1000, s_total_users_found = 1, s_last_export_time = 0\<rparr>"
    by (simp add: t w_seen_def select_state_def save_state_def insert_users_def get_state_def
        insert_or_ignore_state_def w_other_def time_now_def)
  have s: "all_skipped ''42'' (p_data page_again) w_seen"
    by (simp add: all_skipped_def page_again_def w_seen_def save_state_def insert_users_def
        insert_user_def insert_or_ignore_liker_def has_key_def user_of_id_def get_state_def
        select_state_def w_other_def)
  have c: "count_likers ''42'' w_seen = 1"
    by (simp add: count_likers_def w_seen_def save_state_def insert_users_def
        insert_user_def insert_or_ignore_liker_def user_of_id_def get_state_def
        select_state_def w_other_def)
  have n: "time_now w_seen = 1000"
    by (simp add: time_now_def w_seen_def save_state_def insert_users_def get_state_def
        select_state_def w_other_def)
  have p: "p_data page_again \<noteq> [] \<and> p_next_token page_again = None \<and>
           length (p_data page_again) = 1"
    by (simp add: page_again_def)
  show ?thesis
    using process_page_counts_payload [OF h, of 1 page_again] h s c n p
    by (simp add: t truthy_def)
qed

lemma read_stop_flag_frame [simp]:
  "fst (read_stop_flag w) = stop_flag_set w"
  "tbl_likers (snd (read_stop_flag w)) = tbl_likers w"
  "tbl_state (snd (read_stop_flag w)) = tbl_state w"
  "remote (snd (read_stop_flag w)) = remote w"
  "sent (snd (read_stop_flag w)) = sent w"
  "stop_after (snd (read_stop_flag w)) = stop_after w"
  "clock (snd (read_stop_flag w)) = clock w"
  "stop_reads (snd (read_stop_flag w)) = Suc (stop_reads w)"
  "events (snd (read_stop_flag w)) = events w @ [StopRead (stop_flag_set w)]"
  by (simp_all add: read_stop_flag_def)

lemma session_get_frame [simp]:
  "fst (session_get tid ps w) = remote w (sent w)"
  "tbl_likers (snd (session_get tid ps w)) = tbl_likers w"
  "tbl_state (snd (session_get tid ps w)) = tbl_state w"
  "remote (snd (session_get tid ps w)) = remote w"
  "sent (snd (session_get tid ps w)) = Suc (sent w)"
  "stop_after (snd (session_get tid ps w)) = stop_after w"
  "stop_reads (snd (session_get tid ps w)) = stop_reads w"
  "clock (snd (session_get tid ps w)) = clock w"
  "events (snd (session_get tid ps w)) = events w @ [Request (clock w) tid ps]"
  by (simp_all add: session_get_def)

lemma fetch_attempt_other_status:
  assumes "remote w (sent w) = Response r" and "status_code r \<noteq> 200" and "status_code r \<noteq> 429"
    and "\<not> (500 \<le> status_code r \<and> status_code r < 600)"
  shows "fetch_attempt cfg tid ps attempt w =
           (Leave (Return None), pace_requests cfg r (snd (session_get tid ps w)))"
  using assms by (simp add: fetch_attempt_def split_beta Let_def)

lemma fetch_attempts_leave:
  "attempt < 7 \<Longrightarrow> fetch_attempt cfg tid ps attempt w = (Leave res, w1) \<Longrightarrow>
   fetch_attempts cfg tid ps attempt w = (res, w1)"
  by (subst fetch_attempts.simps) simp

lemma fetch_attempts_continue:
  "attempt < 7 \<Longrightarrow> fetch_attempt cfg tid ps attempt w = (Continue, w1) \<Longrightarrow>
   fetch_attempts cfg tid ps attempt w = fetch_attempts cfg tid ps (Suc attempt) w1"
  by (subst fetch_attempts.simps) simp

lemma fetch_attempts_exhausted:
  "7 \<le> attempt \<Longrightarrow> fetch_attempts cfg tid ps attempt w = (Return None, w)"
  by (subst fetch_attempts.simps) simp

lemma run_loop_no_page:
  assumes "\<not> stop_flag_set w" and "page_count < max_pages cfg"
    and "fetch_page cfg (tweet_id cfg) next_token (snd (read_stop_flag w)) = (Return None, w2)"
  shows "run_loop cfg next_token False total_users page_count w =
           (Return (next_token, False, total_users, Suc page_count),
            save_state (tweet_id cfg) next_token False total_users w2)"
  using assms by (subst run_loop.simps) (simp add: split_beta)

lemma run_loop_done:
  "run_loop cfg next_token True total_users page_count w =
     (Return (next_token, True, total_users, page_count), w)"
  by (subst run_loop.simps) simp

lemma run_loop_stopped:
  "stop_flag_set w \<Longrightarrow>
   run_loop cfg next_token False total_users page_count w =
     (Return (next_token, False, total_users, page_count), snd (read_stop_flag w))"
  by (subst run_loop.simps) (simp add: split_beta)

lemma run_loop_page:
  assumes "\<not> stop_flag_set w" and "page_count < max_pages cfg"
    and "fetch_page cfg (tweet_id cfg) next_token (snd (read_stop_flag w)) = (Return (Some pg), w2)"
  shows "run_loop cfg next_token False total_users page_count w =
           run_loop cfg (p_next_token pg) (\<not> truthy (p_next_token pg))
             (total_users + int (length (p_data pg))) (Suc page_count)
             (snd (process_page cfg total_users pg w2))"
  using assms process_page_result [of cfg total_users pg w2]
  by (subst run_loop.simps) (simp add: split_beta)

lemma get_state_result:
  "fst (get_state tid w) =
     (case checkpoint tid w of
        None \<Rightarrow> (None, False, 0, 0)
      | Some (c, d, n) \<Rightarrow> (c, d, n, case select_state tid w of None \<Rightarrow> 0
                                     | Some row \<Rightarrow> s_last_export_time row))"
  by (simp add: get_state_def checkpoint_def split: option.splits)

lemma get_state_frame [simp]:
  "tbl_likers (snd (get_state tid w)) = tbl_likers w"
  "remote (snd (get_state tid w)) = remote w"
  "sent (snd (get_state tid w)) = sent w"
  "stop_after (snd (get_state tid w)) = stop_after w"
  "stop_reads (snd (get_state tid w)) = stop_reads w"
  "events (snd (get_state tid w)) = events w"
  "clock (snd (get_state tid w)) = clock w"
  by (simp_all add: get_state_def split: option.splits)

lemma checkpoint_get_state:
  "checkpoint tid (snd (get_state tid w)) =
     Some (case checkpoint tid w of None \<Rightarrow> (None, False, 0) | Some c \<Rightarrow> c)"
proof (cases "select_state tid w")
  case None
  then have none: "find (\<lambda>r. s_tweet_id r = tid) (tbl_state w) = None"
    by (simp add: select_state_def)
  from none have "\<not> list_ex (\<lambda>r. s_tweet_id r = tid) (tbl_state w)"
    by (rule find_None_not_ex)
  with none show ?thesis
    by (simp add: checkpoint_def get_state_def select_state_def insert_or_ignore_state_def
        find_snoc)
next
  case (Some row)
  then show ?thesis
    by (simp add: checkpoint_def get_state_def)
qed

lemma stop_flag_set_cong:
  "stop_after w' = stop_after w \<Longrightarrow> stop_reads w' = stop_reads w \<Longrightarrow>
   stop_flag_set w' = stop_flag_set w"
  by (simp add: stop_flag_set_def split: option.splits)

lemma update_export_time_frame [simp]:
  "tbl_likers (update_export_time tid w) = tbl_likers w"
  "remote (update_export_time tid w) = remote w"
  "sent (update_export_time tid w) = sent w"
  "stop_after (update_export_time tid w) = stop_after w"
  "stop_reads (update_export_time tid w) = stop_reads w"
  "events (update_export_time tid w) = events w"
  "clock (update_export_time tid w) = clock w"
  by (simp_all add: update_export_time_def Let_def)

lemma checkpoint_update_export_time:
  "checkpoint tid' (update_export_time tid w) = checkpoint tid' w"
proof -
  have "map_option (\<lambda>row. (s_next_token row, s_done row \<noteq> 0, s_total_users_found row))
          (find (\<lambda>r. s_tweet_id r = tid')
             (map (\<lambda>r. if s_tweet_id r = tid then r\<lparr>s_last_export_time := t\<rparr> else r) rows)) =
        map_option (\<lambda>row. (s_next_token row, s_done row \<noteq> 0, s_total_users_found row))
          (find (\<lambda>r. s_tweet_id r = tid') rows)" for t rows
    by (induction rows) auto
  then show ?thesis
    by (simp add: checkpoint_def select_state_def update_export_time_def Let_def)
qed

lemma export_csv_frame [simp]:
  "tbl_likers (snd (export_csv cfg tid w)) = tbl_likers w"
  "remote (snd (export_csv cfg tid w)) = remote w"
  "sent (snd (export_csv cfg tid w)) = sent w"
  "stop_after (snd (export_csv cfg tid w)) = stop_after w"
  "stop_reads (snd (export_csv cfg tid w)) = stop_reads w"
  "clock (snd (export_csv cfg tid w)) = clock w"
  "checkpoint tid' (snd (export_csv cfg tid w)) = checkpoint tid' w"
  "events (snd (export_csv cfg tid w)) =
     events w @ [Export (fst (export_csv cfg tid w)) (csv_rows tid w)]"
proof -
  have c: "checkpoint tid' (v\<lparr>events := es\<rparr>) = checkpoint tid' v" for v :: "'a world" and es
    by (simp add: checkpoint_def select_state_def)
  show "checkpoint tid' (snd (export_csv cfg tid w)) = checkpoint tid' w"
    by (simp add: export_csv_def export_csv_with_connection_def Let_def
        checkpoint_update_export_time c)
qed (simp_all add: export_csv_def export_csv_with_connection_def Let_def)

lemma final_export_frame [simp]:
  "tbl_likers (final_export cfg w) = tbl_likers w"
  "remote (final_export cfg w) = remote w"
  "sent (final_export cfg w) = sent w"
  "stop_after (final_export cfg w) = stop_after w"
  "stop_reads (final_export cfg w) = stop_reads w"
  "clock (final_export cfg w) = clock w"
  "checkpoint tid' (final_export cfg w) = checkpoint tid' w"
  by (simp_all add: final_export_def Let_def)

lemma checkpoint_cong: "tbl_state w' = tbl_state w \<Longrightarrow> checkpoint tid w' = checkpoint tid w"
  by (simp add: checkpoint_def select_state_def)

lemma checkpoint_save_state:
  "checkpoint tid (save_state tid nt d n w) = map_option (\<lambda>c. (nt, d, n)) (checkpoint tid w)"
  by (simp add: checkpoint_def select_state_save_state option.map_comp comp_def)

lemma max_pages_pos: "0 < max_pages cfg"
  by (simp add: max_pages_def)


lemma run_returns:
  assumes "fst (get_state (tweet_id cfg) w) = (nt, False, n, le)"
    and "run_loop cfg nt False n 0 (snd (get_state (tweet_id cfg) w)) = (Return st, w3)"
  shows "run cfg w = (Return (), final_export cfg (snd (read_stop_flag w3)))"
  using assms by (simp add: run_def split_beta)


lemma checkpoint_frames [simp]:
  "checkpoint tid (snd (read_stop_flag w)) = checkpoint tid w"
  "checkpoint tid (snd (session_get tid' ps w)) = checkpoint tid w"
  "checkpoint tid (pace_requests cfg r w) = checkpoint tid w"
  "checkpoint tid (sleep d w) = checkpoint tid w"
  "checkpoint tid (insert_users cfg tid' us w) = checkpoint tid w"
  by (simp_all add: checkpoint_def select_state_def sleep_def)




section \<open>Properties of the page fetcher\<close>

lemma pace_wait_pos:
  "0 < n \<Longrightarrow>
   pace_wait n w = (if stop_flag_set w then snd (read_stop_flag w)
                    else pace_wait (n - 1) (sleep 1 (snd (read_stop_flag w))))"
  by (cases n) (simp_all add: split_beta)

lemma countdown_429_pos:
  "0 < n \<Longrightarrow>
   countdown_429 n w = (if stop_flag_set w then (True, snd (read_stop_flag w))
                        else countdown_429 (n - 1) (sleep 1 (snd (read_stop_flag w))))"
  by (cases n) (simp_all add: split_beta)

lemma fetch_attempt_429_stopped:
  assumes "remote w (sent w) = Response r" and "status_code r = 429"
    and "reset_header_429 (rate_limit_reset r) = Some T" and "T \<noteq> 0"
    and "stop_flag_set (pace_requests cfg r (snd (session_get tid ps w)))"
  shows "fetch_attempt cfg tid ps attempt w =
           (Leave (Return None),
            snd (read_stop_flag (pace_requests cfg r (snd (session_get tid ps w)))))"
proof -
  let ?w2 = "pace_requests cfg r (snd (session_get tid ps w))"
  let ?delay = "if quick_test cfg then 5 else max 5 (T - time_now ?w2 + 2)"
  have "0 < ?delay" by (simp add: max_def)
  then have "0 < nat ?delay" by linarith
  then have "countdown_429 (nat ?delay) ?w2 = (True, snd (read_stop_flag ?w2))"
    using assms(5) by (simp add: countdown_429_pos)
  then show ?thesis
    using assms(1-4) by (simp add: fetch_attempt_def Let_def split_beta)
qed

lemma fetches_refl: "fetches w w"
  by (simp add: fetches_def)

lemma fetches_trans: "fetches w w' \<Longrightarrow> fetches w' w'' \<Longrightarrow> fetches w w''"
proof -
  assume a: "fetches w w'" and b: "fetches w' w''"
  from a obtain es where es: "events w' = events w @ es"
    unfolding fetches_def by (metis append_take_drop_id)
  from b obtain fs where fs: "events w'' = events w' @ fs"
    unfolding fetches_def by (metis append_take_drop_id)
  from es fs have "take (length (events w)) (events w'') = events w" by simp
  with a b show ?thesis by (simp add: fetches_def)
qed

lemma waits_fetches: "waits w w' \<Longrightarrow> fetches w w'"
  by (simp add: waits_def fetches_def)

lemma fetches_session_get: "fetches w (snd (session_get tid ps w))"
  by (simp add: fetches_def)

lemma fetches_read_stop_flag: "fetches w (snd (read_stop_flag w))"
  by (simp add: fetches_def)

lemma fetches_fetch_attempt: "fetches w (snd (fetch_attempt cfg tid ps attempt w))"
proof -
  let ?w1 = "snd (session_get tid ps w)"
  have a: "fetches w ?w1" by (rule fetches_session_get)
  have b: "fetches w (backoff_sleep attempt ?w1)"
    by (rule fetches_trans [OF a waits_fetches [OF waits_backoff_sleep]])
  have c: "fetches w (pace_requests cfg r ?w1)" for r
    by (rule fetches_trans [OF a waits_fetches [OF waits_pace_requests]])
  have d: "fetches w (backoff_sleep attempt (pace_requests cfg r ?w1))" for r
    by (rule fetches_trans [OF c waits_fetches [OF waits_backoff_sleep]])
  have e: "fetches w (snd (countdown_429 n (pace_requests cfg r ?w1)))" for r n
    by (rule fetches_trans [OF c waits_fetches [OF waits_countdown_429]])
  have f: "fetches w (snd (read_stop_flag (snd (countdown_429 n (pace_requests cfg r ?w1)))))"
    for r n
    by (rule fetches_trans [OF e fetches_read_stop_flag])
  show ?thesis
    using b c d e f
    by (simp add: fetch_attempt_def Let_def split_beta
        split: http_event.splits option.splits bool.splits)
qed

lemma fetches_fetch_attempts: "fetches w (snd (fetch_attempts cfg tid ps attempt w))"
proof (induction "7 - attempt" arbitrary: attempt w)
  case 0
  then show ?case by (simp add: fetch_attempts_exhausted fetches_refl)
next
  case (Suc k)
  then have lt: "attempt < 7" by simp
  obtain fl w1 where a: "fetch_attempt cfg tid ps attempt w = (fl, w1)"
    by (cases "fetch_attempt cfg tid ps attempt w")
  have s: "fetches w w1"
    using fetches_fetch_attempt [of w cfg tid ps attempt] a by simp
  show ?case
  proof (cases fl)
    case Continue
    from Suc(2) have "k = 7 - Suc attempt" by simp
    then have "fetches w1 (snd (fetch_attempts cfg tid ps (Suc attempt) w1))"
      by (rule Suc(1))
    with s have "fetches w (snd (fetch_attempts cfg tid ps (Suc attempt) w1))"
      by (rule fetches_trans)
    then show ?thesis
      using a Continue lt by (simp add: fetch_attempts_continue)
  next
    case (Leave res)
    then show ?thesis
      using a s lt by (simp add: fetch_attempts_leave)
  qed
qed

lemma fetches_fetch_page: "fetches w (snd (fetch_page cfg tid next_token w))"
  by (simp add: fetch_page_def fetches_fetch_attempts)


text \<open>
  The definitions a concrete run unfolds, for evaluating the model on a concrete world.
\<close>

lemmas run_eval =
  run_def get_state_def select_state_def insert_or_ignore_state_def
  read_stop_flag_def stop_flag_set_def max_pages_def fetch_page_def fetch_params_def truthy_def
  fetch_attempt_def session_get_def pace_requests_def rate_limit_headers_def uniform_def
  sleep_def backoff_sleep_def process_page_def insert_users_def insert_user_def
  insert_or_ignore_liker_def save_state_def time_now_def final_export_def count_likers_def
  export_csv_def export_csv_with_connection_def update_export_time_def
  run_loop.simps fetch_attempts.simps pace_wait_pos countdown_429_pos Let_def
  csv_rows_def select_likers_def csv_row_def header_row_def opt_cell_def
  path_join_def str_int_def str_nat.simps digit_char_def user_of_id_def
  checkpoint_def checkpoint_done_def

text \<open>
  Claim C5, as stated, fails: the result of \<open>fetch_page\<close> is a page or \<^verbatim>\<open>None\<close>, and
  it is the same \<^verbatim>\<open>None\<close> when the stop flag is read set during the countdown after
  a 429 (the world \<open>w_stopped\<close>) and when the response is a 404 (the world \<open>w_404\<close>).
  \<open>run\<close> returns the same value and leaves the same checkpoint in both.
\<close>

theorem no_page_signal_not_distinguished:
  "fst (fetch_page cfg_final ''42'' None (snd (read_stop_flag w_stopped))) =
   fst (fetch_page cfg_final ''42'' None (snd (read_stop_flag w_404))) \<and>
   fst (fetch_page cfg_final ''42'' None (snd (read_stop_flag w_404))) = Return None \<and>
   map wait_event (events (snd (fetch_page cfg_final ''42'' None (snd (read_stop_flag w_404))))) =
     [True, False, True] \<and>
   events (snd (fetch_page cfg_final ''42'' None (snd (read_stop_flag w_stopped)))) =
     [StopRead False, Request 1000 ''42'' (fetch_params cfg_final None),
      StopRead False, Sleep 1, StopRead False, Sleep 1, StopRead True, StopRead True] \<and>
   fst (run cfg_final w_stopped) = fst (run cfg_final w_404) \<and>
   checkpoint ''42'' (snd (run cfg_final w_stopped)) = Some (None, False, 0) \<and>
   checkpoint ''42'' (snd (run cfg_final w_404)) = Some (None, False, 0)"
  by (simp add: run_eval cfg_final_def w_stopped_def w_404_def r_429_def r_404_def)


lemma run_loop_no_page_frame:
  assumes "\<not> stop_flag_set v" and "page_count < max_pages cfg"
    and "fst (fetch_page cfg (tweet_id cfg) next_token (snd (read_stop_flag v))) = Return None"
  shows "fst (run_loop cfg next_token False total_users page_count v) =
           Return (next_token, False, total_users, Suc page_count) \<and>
         checkpoint (tweet_id cfg) (snd (run_loop cfg next_token False total_users page_count v)) =
           map_option (\<lambda>c. (next_token, False, total_users)) (checkpoint (tweet_id cfg) v) \<and>
         tbl_likers (snd (run_loop cfg next_token False total_users page_count v)) = tbl_likers v"
proof -
  let ?v1 = "snd (read_stop_flag v)"
  let ?w2 = "snd (fetch_page cfg (tweet_id cfg) next_token ?v1)"
  have f: "fetch_page cfg (tweet_id cfg) next_token ?v1 = (Return None, ?w2)"
    using assms(3) by (simp add: prod_eq_iff)
  have loop: "run_loop cfg next_token False total_users page_count v =
                (Return (next_token, False, total_users, Suc page_count),
                 save_state (tweet_id cfg) next_token False total_users ?w2)"
    by (rule run_loop_no_page [OF assms(1) assms(2) f])
  have fr: "fetches ?v1 ?w2" by (rule fetches_fetch_page)
  then have t: "tbl_state ?w2 = tbl_state v" and l: "tbl_likers ?w2 = tbl_likers v"
    by (simp_all add: fetches_def)
  have c: "checkpoint (tweet_id cfg) ?w2 = checkpoint (tweet_id cfg) v"
    by (rule checkpoint_cong [OF t])
  show ?thesis
    using loop c l by (simp add: checkpoint_save_state)
qed

lemma flag_set_at_reads: "stop_flag_set w = flag_set_at (stop_reads w) w"
  by (simp add: stop_flag_set_def flag_set_at_def)

lemma flag_set_at_mono: "flag_set_at k w \<Longrightarrow> k \<le> k' \<Longrightarrow> flag_set_at k' w"
  by (auto simp: flag_set_at_def split: option.splits)

lemma flag_set_at_cong: "stop_after w' = stop_after w \<Longrightarrow> flag_set_at k w' = flag_set_at k w"
  by (simp add: flag_set_at_def)

text \<open>
  The countdown after a 429 and the read that follows it find the flag set exactly when
  the read that follows the whole countdown would.
\<close>

lemma countdown_429_then_read:
  "(fst (countdown_429 n v) \<or> stop_flag_set (snd (countdown_429 n v))) =
   flag_set_at (stop_reads v + n) v"
proof (induction n arbitrary: v)
  case 0
  show ?case by (simp add: flag_set_at_reads)
next
  case (Suc n)
  show ?case
  proof (cases "stop_flag_set v")
    case True
    then have "flag_set_at (stop_reads v + Suc n) v"
      unfolding flag_set_at_reads by (rule flag_set_at_mono) simp
    with True show ?thesis by (simp add: split_beta)
  next
    case False
    let ?v' = "sleep 1 (snd (read_stop_flag v))"
    have s: "stop_reads ?v' = Suc (stop_reads v)" and a: "stop_after ?v' = stop_after v"
      by (simp_all add: sleep_def)
    from False have "countdown_429 (Suc n) v = countdown_429 n ?v'"
      by (simp add: split_beta)
    then show ?thesis
      using Suc.IH [of ?v'] flag_set_at_cong [OF a] by (simp add: s)
  qed
qed

lemma waits_after_request:
  "waits (snd (session_get tid ps w)) (snd (fetch_attempt cfg tid ps attempt w))"
proof -
  let ?w1 = "snd (session_get tid ps w)"
  have b: "waits ?w1 (backoff_sleep attempt ?w1)"
    by (rule waits_backoff_sleep)
  have c: "waits ?w1 (pace_requests cfg r ?w1)" for r
    by (rule waits_pace_requests)
  have e: "waits ?w1 (backoff_sleep attempt (pace_requests cfg r ?w1))" for r
    by (rule waits_trans [OF c waits_backoff_sleep])
  have f: "waits ?w1 (snd (countdown_429 n (pace_requests cfg r ?w1)))" for r n
    by (rule waits_trans [OF c waits_countdown_429])
  have g: "waits ?w1 (snd (read_stop_flag (snd (countdown_429 n (pace_requests cfg r ?w1)))))"
    for r n
    by (rule waits_trans [OF f waits_read_stop_flag])
  show ?thesis
    using b c e f g
    by (simp add: fetch_attempt_def Let_def split_beta
        split: http_event.splits option.splits bool.splits)
qed

lemma fetch_attempt_sends_one:
  "sent (snd (fetch_attempt cfg tid ps attempt w)) = Suc (sent w)"
  "remote (snd (fetch_attempt cfg tid ps attempt w)) = remote w"
  using waits_after_request [of tid ps w cfg attempt] by (simp_all add: waits_def)

lemma fetch_attempt_429:
  assumes "remote w (sent w) = Response r" and "status_code r = 429"
    and "reset_header_429 (rate_limit_reset r) = Some T" and "T \<noteq> 0"
  shows "fst (fetch_attempt cfg tid ps attempt w) =
           (if flag_set_at
                 (stop_reads (pace_requests cfg r (snd (session_get tid ps w))) +
                  nat (if quick_test cfg then 5
                       else max 5 (T - time_now (pace_requests cfg r (snd (session_get tid ps w)))
                                   + 2)))
                 w
            then Leave (Return None) else Continue)"
proof -
  let ?w2 = "pace_requests cfg r (snd (session_get tid ps w))"
  let ?n = "nat (if quick_test cfg then 5 else max 5 (T - time_now ?w2 + 2))"
  let ?c = "countdown_429 ?n ?w2"
  have a: "stop_after ?w2 = stop_after w" by simp
  obtain st w3 where c: "?c = (st, w3)" by (cases ?c)
  have "fst (fetch_attempt cfg tid ps attempt w) =
          (if st \<or> stop_flag_set w3 then Leave (Return None) else Continue)"
    using assms c by (cases st) (simp_all add: fetch_attempt_def Let_def split_beta)
  with c have "fst (fetch_attempt cfg tid ps attempt w) =
          (if fst ?c \<or> stop_flag_set (snd ?c) then Leave (Return None) else Continue)"
    by simp
  then show ?thesis
    unfolding countdown_429_then_read flag_set_at_cong [OF a] .
qed

lemma fetch_attempt_retry:
  assumes "retry_event (remote w (sent w))"
  shows "fst (fetch_attempt cfg tid ps attempt w) = Continue"
proof (cases "remote w (sent w)")
  case RequestException
  then show ?thesis by (simp add: fetch_attempt_def split_beta)
next
  case (Response r)
  with assms show ?thesis
    by (auto simp: fetch_attempt_def split_beta Let_def)
qed

lemma retries_continue:
  assumes "\<forall>k<n. retry_event (remote w (sent w + k))"
  shows "attempts_continue cfg tid ps attempt n w"
  using assms
proof (induction n arbitrary: attempt w)
  case 0
  show ?case by simp
next
  case (Suc n)
  let ?w1 = "snd (fetch_attempt cfg tid ps attempt w)"
  from Suc.prems have "retry_event (remote w (sent w + 0))" by blast
  then have c: "fst (fetch_attempt cfg tid ps attempt w) = Continue"
    using fetch_attempt_retry [of w cfg tid ps attempt] by simp
  have "\<forall>k<n. retry_event (remote ?w1 (sent ?w1 + k))"
  proof (intro allI impI)
    fix k assume "k < n"
    then have "Suc k < Suc n" by simp
    with Suc.prems have "retry_event (remote w (sent w + Suc k))" by blast
    then show "retry_event (remote ?w1 (sent ?w1 + k))"
      by (simp add: fetch_attempt_sends_one)
  qed
  then have "attempts_continue cfg tid ps (Suc attempt) n ?w1"
    by (rule Suc.IH)
  with c show ?case by simp
qed

lemma fetch_attempts_exhaust:
  assumes "attempt \<le> 7" and "attempts_continue cfg tid ps attempt (7 - attempt) w"
  shows "fst (fetch_attempts cfg tid ps attempt w) = Return None \<and>
         sent (snd (fetch_attempts cfg tid ps attempt w)) = sent w + (7 - attempt)"
  using assms
proof (induction "7 - attempt" arbitrary: attempt w)
  case 0
  then have "7 \<le> attempt" by simp
  then show ?case by (simp add: fetch_attempts_exhausted)
next
  case (Suc n)
  then have lt: "attempt < 7" by simp
  let ?w1 = "snd (fetch_attempt cfg tid ps attempt w)"
  have n: "n = 7 - Suc attempt" using Suc(2) by simp
  have s: "7 - attempt = Suc n" using Suc(2) by simp
  from Suc(4) have c0: "fst (fetch_attempt cfg tid ps attempt w) = Continue"
    and rest: "attempts_continue cfg tid ps (Suc attempt) (7 - Suc attempt) ?w1"
    unfolding s by (simp_all add: n)
  from c0 have c: "fetch_attempt cfg tid ps attempt w = (Continue, ?w1)"
    by (simp add: prod_eq_iff)
  have step: "fetch_attempts cfg tid ps attempt w = fetch_attempts cfg tid ps (Suc attempt) ?w1"
    by (rule fetch_attempts_continue [OF lt c])
  have le: "Suc attempt \<le> 7" using lt by simp
  from Suc(1) [OF n le rest] show ?case
    unfolding step using lt by (simp add: fetch_attempt_sends_one)
qed

text \<open>
  Claim C5, amended. \<open>fetch_page\<close> has one signal for "no page", \<^verbatim>\<open>None\<close>. After a
  429 with a reset time the attempt returns it exactly when the stop flag is set by the
  last read of the countdown (the read after the countdown's last sleep), wherever in
  the countdown it is first read set, and goes on to the next attempt otherwise. The
  attempt loop returns the same \<^verbatim>\<open>None\<close> on a 4xx other than 429, and when the
  attempts are exhausted: when each of the attempts left ends in \<^verbatim>\<open>continue\<close>, as
  it does on a network error, a 5xx and a 429 without a reset time, one request having
  been sent for each. On \<^verbatim>\<open>None\<close> the collection loop saves the checkpoint with the
  cursor and the count it holds and with \<open>done = False\<close>, leaves the record store as
  it was, and returns.
\<close>

theorem no_page_signal:
  "(attempt < 7 \<and> remote w (sent w) = Response r \<and> status_code r = 429 \<and>
    reset_header_429 (rate_limit_reset r) = Some T \<and> T \<noteq> 0 \<longrightarrow>
      (let w2 = pace_requests cfg r (snd (session_get tid ps w));
           last_read = stop_reads w2 +
             nat (if quick_test cfg then 5 else max 5 (T - time_now w2 + 2))
       in fst (fetch_attempt cfg tid ps attempt w) =
            (if flag_set_at last_read w then Leave (Return None) else Continue) \<and>
          (flag_set_at last_read w \<longrightarrow>
             fst (fetch_attempts cfg tid ps attempt w) = Return None))) \<and>
   (attempt < 7 \<and> remote w (sent w) = Response r \<and>
    400 \<le> status_code r \<and> status_code r < 500 \<and> status_code r \<noteq> 429 \<longrightarrow>
      fst (fetch_attempts cfg tid ps attempt w) = Return None) \<and>
   (retry_event (remote w (sent w)) \<longrightarrow> fst (fetch_attempt cfg tid ps attempt w) = Continue) \<and>
   ((\<forall>k<n. retry_event (remote w (sent w + k))) \<longrightarrow> attempts_continue cfg tid ps attempt n w) \<and>
   (attempt \<le> 7 \<and> attempts_continue cfg tid ps attempt (7 - attempt) w \<longrightarrow>
      fst (fetch_attempts cfg tid ps attempt w) = Return None \<and>
      sent (snd (fetch_attempts cfg tid ps attempt w)) = sent w + (7 - attempt)) \<and>
   (\<not> stop_flag_set v \<and> page_count < max_pages cfg \<and>
    fst (fetch_page cfg (tweet_id cfg) next_token (snd (read_stop_flag v))) = Return None \<longrightarrow>
      fst (run_loop cfg next_token False total_users page_count v) =
        Return (next_token, False, total_users, Suc page_count) \<and>
      checkpoint (tweet_id cfg)
        (snd (run_loop cfg next_token False total_users page_count v)) =
        map_option (\<lambda>c. (next_token, False, total_users)) (checkpoint (tweet_id cfg) v) \<and>
      tbl_likers (snd (run_loop cfg next_token False total_users page_count v)) =
        tbl_likers v)"
proof (intro conjI impI)
  assume a: "attempt < 7 \<and> remote w (sent w) = Response r \<and> status_code r = 429 \<and>
    reset_header_429 (rate_limit_reset r) = Some T \<and> T \<noteq> 0"
  let ?w2 = "pace_requests cfg r (snd (session_get tid ps w))"
  let ?k = "stop_reads ?w2 + nat (if quick_test cfg then 5 else max 5 (T - time_now ?w2 + 2))"
  from a have f: "fst (fetch_attempt cfg tid ps attempt w) =
            (if flag_set_at ?k w then Leave (Return None) else Continue)"
    by (intro fetch_attempt_429) simp_all
  have "fst (fetch_attempts cfg tid ps attempt w) = Return None" if "flag_set_at ?k w"
  proof -
    from f that have "fetch_attempt cfg tid ps attempt w =
        (Leave (Return None), snd (fetch_attempt cfg tid ps attempt w))"
      by (simp add: prod_eq_iff)
    with a show ?thesis by (simp add: fetch_attempts_leave)
  qed
  with f show "let w2 = pace_requests cfg r (snd (session_get tid ps w));
           last_read = stop_reads w2 +
             nat (if quick_test cfg then 5 else max 5 (T - time_now w2 + 2))
       in fst (fetch_attempt cfg tid ps attempt w) =
            (if flag_set_at last_read w then Leave (Return None) else Continue) \<and>
          (flag_set_at last_read w \<longrightarrow>
             fst (fetch_attempts cfg tid ps attempt w) = Return None)"
    by (simp add: Let_def)
next
  assume a: "attempt < 7 \<and> remote w (sent w) = Response r \<and>
    400 \<le> status_code r \<and> status_code r < 500 \<and> status_code r \<noteq> 429"
  then have "fetch_attempt cfg tid ps attempt w =
           (Leave (Return None), pace_requests cfg r (snd (session_get tid ps w)))"
    by (intro fetch_attempt_other_status) simp_all
  with a show "fst (fetch_attempts cfg tid ps attempt w) = Return None"
    by (simp add: fetch_attempts_leave)
next
  assume "retry_event (remote w (sent w))"
  then show "fst (fetch_attempt cfg tid ps attempt w) = Continue"
    by (rule fetch_attempt_retry)
next
  assume "\<forall>k<n. retry_event (remote w (sent w + k))"
  then show "attempts_continue cfg tid ps attempt n w"
    by (rule retries_continue)
next
  assume a: "attempt \<le> 7 \<and> attempts_continue cfg tid ps attempt (7 - attempt) w"
  then have "fst (fetch_attempts cfg tid ps attempt w) = Return None \<and>
         sent (snd (fetch_attempts cfg tid ps attempt w)) = sent w + (7 - attempt)"
    by (intro fetch_attempts_exhaust) simp_all
  then show "fst (fetch_attempts cfg tid ps attempt w) = Return None"
    and "sent (snd (fetch_attempts cfg tid ps attempt w)) = sent w + (7 - attempt)"
    by simp_all
next
  assume a: "\<not> stop_flag_set v \<and> page_count < max_pages cfg \<and>
    fst (fetch_page cfg (tweet_id cfg) next_token (snd (read_stop_flag v))) = Return None"
  then have "fst (run_loop cfg next_token False total_users page_count v) =
           Return (next_token, False, total_users, Suc page_count) \<and>
         checkpoint (tweet_id cfg) (snd (run_loop cfg next_token False total_users page_count v)) =
           map_option (\<lambda>c. (next_token, False, total_users)) (checkpoint (tweet_id cfg) v) \<and>
         tbl_likers (snd (run_loop cfg next_token False total_users page_count v)) = tbl_likers v"
    by (intro run_loop_no_page_frame) simp_all
  then show "fst (run_loop cfg next_token False total_users page_count v) =
        Return (next_token, False, total_users, Suc page_count)"
    and "checkpoint (tweet_id cfg)
        (snd (run_loop cfg next_token False total_users page_count v)) =
        map_option (\<lambda>c. (next_token, False, total_users)) (checkpoint (tweet_id cfg) v)"
    and "tbl_likers (snd (run_loop cfg next_token False total_users page_count v)) =
        tbl_likers v"
    by simp_all
qed


theorem no_page_signal_witness:
  "remote (snd (read_stop_flag w_stopped)) (sent (snd (read_stop_flag w_stopped))) =
     Response r_429 \<and>
   status_code r_429 = 429 \<and> reset_header_429 (rate_limit_reset r_429) = Some 2000 \<and>
   \<not> stop_flag_set w_stopped \<and>
   \<not> stop_flag_set (pace_requests cfg_quick r_429
       (snd (session_get ''42'' (fetch_params cfg_quick None) (snd (read_stop_flag w_stopped))))) \<and>
   flag_set_at 6 (snd (read_stop_flag w_stopped)) \<and>
   fst (fetch_attempts cfg_quick ''42'' (fetch_params cfg_quick None) 0
          (snd (read_stop_flag w_stopped))) = Return None \<and>
   events (snd (fetch_attempts cfg_quick ''42'' (fetch_params cfg_quick None) 0
          (snd (read_stop_flag w_stopped)))) =
     [StopRead False, Request 1000 ''42'' (fetch_params cfg_quick None),
      StopRead False, Sleep 1, StopRead False, Sleep 1, StopRead True] \<and>
   fst (run_loop cfg_quick None False 0 0 w_stopped) = Return (None, False, 0, 1) \<and>
   tbl_likers (snd (run_loop cfg_quick None False 0 0 w_stopped)) = [] \<and>
   retry_event (remote w_other (sent w_other)) \<and>
   fst (fetch_attempts cfg_final ''42'' (fetch_params cfg_final None) 0 w_other) = Return None \<and>
   sent (snd (fetch_attempts cfg_final ''42'' (fetch_params cfg_final None) 0 w_other)) = 7"
proof -
  let ?v1 = "snd (read_stop_flag w_stopped)"
  let ?ps = "fetch_params cfg_quick None"
  let ?w2 = "pace_requests cfg_quick r_429 (snd (session_get ''42'' ?ps ?v1))"
  have h1: "remote ?v1 (sent ?v1) = Response r_429"
    by (simp add: w_stopped_def)
  have a: "status_code r_429 = 429" and b: "reset_header_429 (rate_limit_reset r_429) = Some 2000"
    by (simp_all add: r_429_def)
  have q: "quick_test cfg_quick" "tweet_id cfg_quick = ''42''"
    by (simp_all add: cfg_quick_def)
  have w2: "?w2 = snd (session_get ''42'' ?ps ?v1)"
    using q by (simp add: pace_requests_def split_beta)
  have sr: "stop_reads ?w2 = 1"
    unfolding w2 by (simp add: w_stopped_def)
  have ns2: "\<not> stop_flag_set ?w2"
    unfolding w2 by (simp add: stop_flag_set_def w_stopped_def)
  have fl: "flag_set_at 6 ?v1"
    by (simp add: flag_set_at_def w_stopped_def)
  have d: "\<not> stop_flag_set w_stopped"
    by (simp add: stop_flag_set_def w_stopped_def)
  have e: "(0::nat) < max_pages cfg_quick"
    by (simp add: max_pages_def)
  have t: "tbl_likers w_stopped = []"
    by (simp add: w_stopped_def)
  have ev: "events (snd (fetch_attempts cfg_quick ''42'' ?ps 0 ?v1)) =
     [StopRead False, Request 1000 ''42'' ?ps,
      StopRead False, Sleep 1, StopRead False, Sleep 1, StopRead True]"
    by (simp add: run_eval cfg_quick_def w_stopped_def r_429_def)
  have f: "fst (fetch_attempts cfg_quick ''42'' ?ps 0 ?v1) = Return None"
    using no_page_signal [where attempt = 0 and w = ?v1 and r = r_429 and T = 2000
        and cfg = cfg_quick and tid = "''42''" and ps = ?ps] h1 a b q sr fl
    by (simp add: Let_def)
  then have g: "fst (fetch_page cfg_quick (tweet_id cfg_quick) None ?v1) = Return None"
    by (simp add: fetch_page_def q)
  have l: "fst (run_loop cfg_quick None False 0 0 w_stopped) = Return (None, False, 0, 1) \<and>
           tbl_likers (snd (run_loop cfg_quick None False 0 0 w_stopped)) = []"
    using no_page_signal [where cfg = cfg_quick and v = w_stopped and page_count = 0
        and next_token = None and total_users = 0] d e g t
    by simp
  have r0: "retry_event (remote w_other (sent w_other))"
    by (simp add: w_other_def)
  have rk: "\<forall>k<7 - 0. retry_event (remote w_other (sent w_other + k))"
    by (simp add: w_other_def)
  have ac: "attempts_continue cfg_final ''42'' (fetch_params cfg_final None) 0 (7 - 0) w_other"
    using no_page_signal [where attempt = 0 and w = w_other and cfg = cfg_final and n = "7 - 0"
        and tid = "''42''" and ps = "fetch_params cfg_final None"] rk
    by blast
  have x: "fst (fetch_attempts cfg_final ''42'' (fetch_params cfg_final None) 0 w_other) =
             Return None \<and>
           sent (snd (fetch_attempts cfg_final ''42'' (fetch_params cfg_final None) 0 w_other)) = 7"
    using no_page_signal [where attempt = 0 and w = w_other and cfg = cfg_final
        and tid = "''42''" and ps = "fetch_params cfg_final None"] ac
    by (simp add: w_other_def)
  show ?thesis
    using h1 a b d ns2 fl f ev l r0 x by simp
qed

section \<open>Properties of the final export\<close>

text \<open>
  Claim C8 at an input where the code departs from it. A first run on a tweet nobody
  liked ends with the checkpoint done and no record, and writes no file, as the claim
  says. A second run finds the checkpoint done and, in final export mode, writes a file
  that holds the header row only, although no record exists: the early return of
  \<open>run\<close> exports without the test on the number of rows that the export after the
  loop makes. It sends no request.
\<close>

theorem done_path_exports_without_records:
  "exports (events (snd (run cfg_final w_no_likes))) = [] \<and>
   fst (run cfg_final w_no_likes) = Return () \<and>
   checkpoint ''42'' (snd (run cfg_final w_no_likes)) = Some (None, True, 0) \<and>
   count_likers ''42'' (snd (run cfg_final w_no_likes)) = 0 \<and>
   export_mode cfg_final = ''final'' \<and>
   exports (events (snd (run cfg_final (snd (run cfg_final w_no_likes))))) =
     [(''./42_likers_1000.csv'', [header_row])] \<and>
   requests (events (snd (run cfg_final (snd (run cfg_final w_no_likes))))) =
     requests (events (snd (run cfg_final w_no_likes)))"
  by (simp add: run_eval cfg_final_def w_no_likes_def r_empty_def)

section \<open>Properties of a resumed run\<close>

lemma grows_iff: "grows w w' \<longleftrightarrow> (\<exists>es. events w' = events w @ es)"
proof
  assume "grows w w'"
  then have "events w' = events w @ drop (length (events w)) (events w')"
    unfolding grows_def by (metis append_take_drop_id)
  then show "\<exists>es. events w' = events w @ es" ..
next
  assume "\<exists>es. events w' = events w @ es"
  then show "grows w w'" by (auto simp: grows_def)
qed

lemma grows_refl: "grows w w"
  by (simp add: grows_def)

lemma grows_trans: "grows w w' \<Longrightarrow> grows w' w'' \<Longrightarrow> grows w w''"
  by (auto simp: grows_iff)

lemma grows_same: "events w' = events w \<Longrightarrow> grows w w'"
  by (simp add: grows_def)

lemma fetches_grows: "fetches w w' \<Longrightarrow> grows w w'"
  by (simp add: fetches_def grows_def)

lemma grows_take:
  "grows w' w'' \<Longrightarrow> k \<le> length (events w') \<Longrightarrow> take k (events w'') = take k (events w')"
  by (auto simp: grows_iff)

lemma grows_process_page: "grows w (snd (process_page cfg total_users pg w))"
  by (simp add: grows_def process_page_def Let_def split_beta sleep_def)

lemma grows_final_export: "grows w (final_export cfg w)"
  by (simp add: grows_def final_export_def Let_def)

lemma run_loop_limit:
  "\<not> stop_flag_set w \<Longrightarrow> \<not> page_count < max_pages cfg \<Longrightarrow>
   run_loop cfg next_token False total_users page_count w =
     (Return (next_token, False, total_users, page_count), snd (read_stop_flag w))"
  by (subst run_loop.simps) (simp add: split_beta)

lemma run_loop_raise:
  assumes "\<not> stop_flag_set w" and "page_count < max_pages cfg"
    and "fetch_page cfg (tweet_id cfg) next_token (snd (read_stop_flag w)) = (Raise e, w2)"
  shows "run_loop cfg next_token False total_users page_count w = (Raise e, w2)"
  using assms by (subst run_loop.simps) (simp add: split_beta)

text \<open>
  The world in which the loop ends is the one the loop was entered in, the one after
  the read of the stop flag, or one that follows a fetch.
\<close>

lemma run_loop_step:
  assumes "\<not> stop_flag_set w" and "page_count < max_pages cfg"
  obtains (raise) e where
      "fst (fetch_page cfg (tweet_id cfg) next_token (snd (read_stop_flag w))) = Raise e"
      "run_loop cfg next_token False total_users page_count w =
         (Raise e, snd (fetch_page cfg (tweet_id cfg) next_token (snd (read_stop_flag w))))"
    | (no_page)
      "fst (fetch_page cfg (tweet_id cfg) next_token (snd (read_stop_flag w))) = Return None"
      "run_loop cfg next_token False total_users page_count w =
         (Return (next_token, False, total_users, Suc page_count),
          save_state (tweet_id cfg) next_token False total_users
            (snd (fetch_page cfg (tweet_id cfg) next_token (snd (read_stop_flag w)))))"
    | (page) pg where
      "fst (fetch_page cfg (tweet_id cfg) next_token (snd (read_stop_flag w))) = Return (Some pg)"
      "run_loop cfg next_token False total_users page_count w =
         run_loop cfg (p_next_token pg) (\<not> truthy (p_next_token pg))
           (total_users + int (length (p_data pg))) (Suc page_count)
           (snd (process_page cfg total_users pg
              (snd (fetch_page cfg (tweet_id cfg) next_token (snd (read_stop_flag w))))))"
proof -
  let ?f = "fetch_page cfg (tweet_id cfg) next_token (snd (read_stop_flag w))"
  have pair: "?f = (fst ?f, snd ?f)" by simp
  show ?thesis
  proof (cases "fst ?f")
    case (Raise e)
    with pair have "?f = (Raise e, snd ?f)" by simp
    from run_loop_raise [OF assms this] Raise show ?thesis by (rule raise [rotated])
  next
    case (Return res)
    show ?thesis
    proof (cases res)
      case None
      with Return pair have "?f = (Return None, snd ?f)" by simp
      from run_loop_no_page [OF assms this] Return None show ?thesis
        by (intro no_page) simp_all
    next
      case (Some pg)
      with Return pair have "?f = (Return (Some pg), snd ?f)" by simp
      from run_loop_page [OF assms this] Return Some show ?thesis
        by (intro page [of pg]) simp_all
    qed
  qed
qed

lemma run_loop_exit:
  assumes "done \<or> stop_flag_set w \<or> \<not> page_count < max_pages cfg"
  shows "run_loop cfg next_token done total_users page_count w =
           (Return (next_token, done, total_users, page_count),
            if done then w else snd (read_stop_flag w))"
proof (cases "done")
  case True
  then show ?thesis by (simp add: run_loop_done)
next
  case nd: False
  show ?thesis
  proof (cases "stop_flag_set w")
    case True
    with nd show ?thesis by (simp add: run_loop_stopped)
  next
    case False
    with nd assms have "\<not> page_count < max_pages cfg" by simp
    with nd False show ?thesis by (simp add: run_loop_limit)
  qed
qed

lemma grows_read_stop_flag: "grows w (snd (read_stop_flag w))"
  by (rule fetches_grows [OF fetches_read_stop_flag])

lemma grows_run_loop:
  "grows w (snd (run_loop cfg next_token d total_users page_count w))"
proof (induction "max_pages cfg - page_count"
    arbitrary: next_token d total_users page_count w)
  case 0
  then have "d \<or> stop_flag_set w \<or> \<not> page_count < max_pages cfg" by simp
  then have "run_loop cfg next_token d total_users page_count w =
           (Return (next_token, d, total_users, page_count),
            if d then w else snd (read_stop_flag w))"
    by (rule run_loop_exit)
  then show ?case by (simp add: grows_refl grows_read_stop_flag)
next
  case (Suc k)
  show ?case
  proof (cases "d \<or> stop_flag_set w")
    case True
    then have "d \<or> stop_flag_set w \<or> \<not> page_count < max_pages cfg" by blast
    then have "run_loop cfg next_token d total_users page_count w =
           (Return (next_token, d, total_users, page_count),
            if d then w else snd (read_stop_flag w))"
      by (rule run_loop_exit)
    then show ?thesis by (simp add: grows_refl grows_read_stop_flag)
  next
    case False
    then have nd: "d = False" and ns: "\<not> stop_flag_set w" by simp_all
    from Suc(2) have lt: "page_count < max_pages cfg" by simp
    let ?w1 = "snd (read_stop_flag w)"
    let ?w2 = "snd (fetch_page cfg (tweet_id cfg) next_token ?w1)"
    have g2: "grows w ?w2"
      by (rule grows_trans [OF grows_read_stop_flag fetches_grows [OF fetches_fetch_page]])
    from ns lt show ?thesis
    proof (cases rule: run_loop_step [where cfg = cfg and next_token = next_token
          and total_users = total_users])
      case (raise e)
      from raise(2) have "snd (run_loop cfg next_token False total_users page_count w) = ?w2"
        by simp
      with g2 show ?thesis unfolding nd by simp
    next
      case no_page
      from no_page(2) have e: "events (snd (run_loop cfg next_token False total_users page_count w)) =
          events ?w2"
        by simp
      from g2 show ?thesis unfolding nd grows_def e .
    next
      case (page pg)
      let ?w3 = "snd (process_page cfg total_users pg ?w2)"
      from Suc(2) have "k = max_pages cfg - Suc page_count" by simp
      then have "grows ?w3 (snd (run_loop cfg (p_next_token pg) (\<not> truthy (p_next_token pg))
           (total_users + int (length (p_data pg))) (Suc page_count) ?w3))"
        by (rule Suc(1))
      then have "grows w (snd (run_loop cfg (p_next_token pg) (\<not> truthy (p_next_token pg))
           (total_users + int (length (p_data pg))) (Suc page_count) ?w3))"
        by (rule grows_trans [OF grows_trans [OF g2 grows_process_page]])
      then show ?thesis unfolding nd page(2) .
    qed
  qed
qed


lemma fetches_after_request:
  "fetches (snd (session_get tid ps w)) (snd (fetch_attempt cfg tid ps attempt w))"
proof -
  let ?w1 = "snd (session_get tid ps w)"
  have b: "fetches ?w1 (backoff_sleep attempt ?w1)"
    by (rule waits_fetches [OF waits_backoff_sleep])
  have c: "fetches ?w1 (pace_requests cfg r ?w1)" for r
    by (rule waits_fetches [OF waits_pace_requests])
  have e: "fetches ?w1 (backoff_sleep attempt (pace_requests cfg r ?w1))" for r
    by (rule fetches_trans [OF c waits_fetches [OF waits_backoff_sleep]])
  have f: "fetches ?w1 (snd (countdown_429 n (pace_requests cfg r ?w1)))" for r n
    by (rule fetches_trans [OF c waits_fetches [OF waits_countdown_429]])
  have g: "fetches ?w1 (snd (read_stop_flag (snd (countdown_429 n (pace_requests cfg r ?w1)))))"
    for r n
    by (rule fetches_trans [OF f fetches_read_stop_flag])
  show ?thesis
    using b c e f g
    by (simp add: fetch_attempt_def Let_def split_beta
        split: http_event.splits option.splits bool.splits)
qed

lemma grows_after_request:
  assumes "attempt < 7"
  shows "grows (snd (session_get tid ps w)) (snd (fetch_attempts cfg tid ps attempt w))"
proof -
  obtain fl w1 where a: "fetch_attempt cfg tid ps attempt w = (fl, w1)"
    by (cases "fetch_attempt cfg tid ps attempt w")
  have s: "grows (snd (session_get tid ps w)) w1"
    using fetches_grows [OF fetches_after_request [of tid ps w cfg attempt]] a by simp
  show ?thesis
  proof (cases fl)
    case Continue
    have "grows w1 (snd (fetch_attempts cfg tid ps (Suc attempt) w1))"
      by (rule fetches_grows [OF fetches_fetch_attempts])
    with s have "grows (snd (session_get tid ps w))
                   (snd (fetch_attempts cfg tid ps (Suc attempt) w1))"
      by (rule grows_trans)
    then show ?thesis
      using a Continue assms by (simp add: fetch_attempts_continue)
  next
    case (Leave res)
    then show ?thesis
      using a s assms by (simp add: fetch_attempts_leave)
  qed
qed

lemma grows_loop_after_fetch:
  assumes "\<not> stop_flag_set w" and "page_count < max_pages cfg"
  shows "grows (snd (fetch_page cfg (tweet_id cfg) next_token (snd (read_stop_flag w))))
           (snd (run_loop cfg next_token False total_users page_count w))"
proof -
  let ?w2 = "snd (fetch_page cfg (tweet_id cfg) next_token (snd (read_stop_flag w)))"
  from assms show ?thesis
  proof (cases rule: run_loop_step [where cfg = cfg and next_token = next_token
        and total_users = total_users])
    case (raise e)
    from raise(2) have "snd (run_loop cfg next_token False total_users page_count w) = ?w2"
      by simp
    then show ?thesis by (simp add: grows_refl)
  next
    case no_page
    from no_page(2)
    have "events (snd (run_loop cfg next_token False total_users page_count w)) = events ?w2"
      by simp
    then show ?thesis by (rule grows_same)
  next
    case (page pg)
    let ?w3 = "snd (process_page cfg total_users pg ?w2)"
    have "grows ?w2 (snd (run_loop cfg (p_next_token pg) (\<not> truthy (p_next_token pg))
           (total_users + int (length (p_data pg))) (Suc page_count) ?w3))"
      by (rule grows_trans [OF grows_process_page grows_run_loop])
    then show ?thesis unfolding page(2) .
  qed
qed

lemma run_loop_first_events:
  assumes "\<not> stop_flag_set w" and "page_count < max_pages cfg"
  shows "take (length (events w) + 2)
           (events (snd (run_loop cfg next_token False total_users page_count w))) =
         events w @ [StopRead False,
                     Request (clock w) (tweet_id cfg) (fetch_params cfg next_token)]"
proof -
  let ?w1 = "snd (read_stop_flag w)"
  let ?wr = "snd (session_get (tweet_id cfg) (fetch_params cfg next_token) ?w1)"
  let ?w2 = "snd (fetch_page cfg (tweet_id cfg) next_token ?w1)"
  have ev: "events ?wr = events w @ [StopRead False,
                     Request (clock w) (tweet_id cfg) (fetch_params cfg next_token)]"
    using assms(1) by simp
  have "grows ?wr ?w2"
    unfolding fetch_page_def by (rule grows_after_request) simp
  then have "grows ?wr (snd (run_loop cfg next_token False total_users page_count w))"
    by (rule grows_trans [OF _ grows_loop_after_fetch [OF assms]])
  then have "take (length (events ?wr))
               (events (snd (run_loop cfg next_token False total_users page_count w))) =
             take (length (events ?wr)) (events ?wr)"
    by (rule grows_take) simp
  then show ?thesis
    unfolding ev by simp
qed

lemma fetch_params_token:
  "c \<noteq> Some [] \<Longrightarrow> pagination_token (fetch_params cfg c) = c"
  by (cases c) (simp_all add: fetch_params_def truthy_def)

lemma run_raises:
  assumes "fst (get_state (tweet_id cfg) w) = (nt, False, n, le)"
    and "run_loop cfg nt False n 0 (snd (get_state (tweet_id cfg) w)) = (Raise e, w3)"
  shows "run cfg w = (Raise e, w3)"
  using assms by (simp add: run_def split_beta)

text \<open>
  Claim C3. When the checkpoint of the tweet holds the cursor \<open>c\<close> and is not done,
  and the stop flag is not set when the loop is entered, the first things a run does
  to the outside are a read of the stop flag and a request whose pagination token is
  \<open>c\<close>: the token itself, or no token when no cursor is saved. (A saved cursor is
  never the empty string with \<open>done = False\<close>: the loop goes on only with a cursor
  that is not empty.)
\<close>

theorem resume_uses_saved_cursor:
  assumes "checkpoint (tweet_id cfg) w = Some (c, False, n)" and "c \<noteq> Some []"
    and "\<not> stop_flag_set w"
  shows "take (length (events w) + 2) (events (snd (run cfg w))) =
           events w @ [StopRead False, Request (clock w) (tweet_id cfg) (fetch_params cfg c)] \<and>
         pagination_token (fetch_params cfg c) = c"
proof -
  let ?g = "snd (get_state (tweet_id cfg) w)"
  have g: "fst (get_state (tweet_id cfg) w) =
             (c, False, n, case select_state (tweet_id cfg) w of None \<Rightarrow> 0
                           | Some row \<Rightarrow> s_last_export_time row)"
    using assms(1) by (simp add: get_state_result)
  have ns: "\<not> stop_flag_set ?g"
    using assms(3) stop_flag_set_cong [of ?g w] by simp
  obtain res wl where l: "run_loop cfg c False n 0 ?g = (res, wl)"
    by (cases "run_loop cfg c False n 0 ?g")
  have first: "take (length (events w) + 2) (events wl) =
               events w @ [StopRead False, Request (clock w) (tweet_id cfg) (fetch_params cfg c)]"
    using run_loop_first_events [OF ns max_pages_pos [of cfg], where next_token = c
        and total_users = n] l
    by simp
  have "grows wl (snd (run cfg w))"
  proof (cases res)
    case (Raise e)
    with l have "run cfg w = (Raise e, wl)" by (simp add: run_raises [OF g])
    then show ?thesis by (simp add: grows_refl)
  next
    case (Return st)
    with l have "run cfg w = (Return (), final_export cfg (snd (read_stop_flag wl)))"
      by (simp add: run_returns [OF g])
    then show ?thesis
      using grows_trans [OF grows_read_stop_flag grows_final_export, of wl cfg] by simp
  qed
  then have "take (length (events w) + 2) (events (snd (run cfg w))) =
             take (length (events w) + 2) (events wl)"
  proof (rule grows_take)
    from first have "length (take (length (events w) + 2) (events wl)) = length (events w) + 2"
      by simp
    then show "length (events w) + 2 \<le> length (events wl)" by simp
  qed
  with first show ?thesis
    using assms(2) by (simp add: fetch_params_token)
qed


theorem resume_uses_saved_cursor_witness:
  "checkpoint (tweet_id cfg_final) w_seen = Some (Some ''X'', False, 1) \<and>
   Some ''X'' \<noteq> Some [] \<and> \<not> stop_flag_set w_seen \<and>
   take 2 (events (snd (run cfg_final w_seen))) =
     [StopRead False,
      Request 1000 ''42''
        \<lparr>user_fields = ''id,name,username,verified,created_at,description,public_metrics'',
         max_results = 100, pagination_token = Some ''X''\<rparr>]"
proof -
  have h1: "checkpoint (tweet_id cfg_final) w_seen = Some (Some ''X'', False, 1)"
    by (simp add: checkpoint_def select_state_def w_seen_def save_state_def insert_users_def
        get_state_def insert_or_ignore_state_def w_other_def cfg_final_def)
  have h2: "Some ''X'' \<noteq> Some []" by simp
  have h3: "\<not> stop_flag_set w_seen"
    by (simp add: stop_flag_set_def w_seen_def save_state_def insert_users_def get_state_def
        select_state_def w_other_def)
  have e: "events w_seen = []" "clock w_seen = 1000"
    by (simp_all add: w_seen_def save_state_def insert_users_def get_state_def
        select_state_def w_other_def)
  have p: "fetch_params cfg_final (Some ''X'') =
        \<lparr>user_fields = ''id,name,username,verified,created_at,description,public_metrics'',
         max_results = 100, pagination_token = Some ''X''\<rparr>"
    by (simp add: fetch_params_def truthy_def cfg_final_def)
  have t: "tweet_id cfg_final = ''42''" by (simp add: cfg_final_def)
  show ?thesis
    using resume_uses_saved_cursor [OF h1 h2 h3] h1 h3 e p t
    by (simp add: numeral_2_eq_2)
qed

section \<open>The end-to-end scenario\<close>

lemma exports_append [simp]: "exports (xs @ ys) = exports xs @ exports ys"
  by (induction xs rule: exports.induct) simp_all

lemma requests_append [simp]: "requests (xs @ ys) = requests xs @ requests ys"
  by (induction xs rule: requests.induct) simp_all

lemma wait_events_silent:
  "list_all wait_event es \<Longrightarrow> exports es = [] \<and> requests es = []"
  by (induction es rule: exports.induct) simp_all

lemma waits_silent:
  assumes "waits w w'"
  shows "exports (events w') = exports (events w)" and "requests (events w') = requests (events w)"
proof -
  from assms obtain es where "events w' = events w @ es" and "list_all wait_event es"
    unfolding waits_iff by blast
  then show "exports (events w') = exports (events w)"
    and "requests (events w') = requests (events w)"
    using wait_events_silent [of es] by simp_all
qed

lemma pace_requests_silent [simp]:
  "exports (events (pace_requests cfg r w)) = exports (events w)"
  "requests (events (pace_requests cfg r w)) = requests (events w)"
  using waits_silent [OF waits_pace_requests] by blast+

lemma no_signal: "stop_after w = None \<Longrightarrow> \<not> stop_flag_set w"
  by (simp add: stop_flag_set_def)

lemma fetch_page_ok:
  assumes "remote w (sent w) = Response r" and "status_code r = 200"
  shows "fetch_page cfg tid next_token w =
           (Return (Some (body r)),
            pace_requests cfg r (snd (session_get tid (fetch_params cfg next_token) w)))"
proof -
  have "fetch_attempt cfg tid (fetch_params cfg next_token) 0 w =
          (Leave (Return (Some (body r))),
           pace_requests cfg r (snd (session_get tid (fetch_params cfg next_token) w)))"
    using assms by (simp add: fetch_attempt_def split_beta Let_def)
  then show ?thesis
    by (simp add: fetch_page_def fetch_attempts_leave)
qed

lemma process_page_frame [simp]:
  "remote (snd (process_page cfg total_users pg w)) = remote w"
  "sent (snd (process_page cfg total_users pg w)) = sent w"
  "stop_after (snd (process_page cfg total_users pg w)) = stop_after w"
  "exports (events (snd (process_page cfg total_users pg w))) = exports (events w)"
  "requests (events (snd (process_page cfg total_users pg w))) = requests (events w)"
  by (simp_all add: process_page_def Let_def split_beta sleep_def)

lemma checkpoint_process_page:
  "checkpoint (tweet_id cfg) (snd (process_page cfg total_users pg w)) =
   map_option (\<lambda>c. (p_next_token pg, \<not> truthy (p_next_token pg),
                      total_users + int (length (p_data pg))))
     (checkpoint (tweet_id cfg) w)"
  using checkpoint_cong [OF process_page_tbl_state [of cfg total_users pg w],
      where tid = "tweet_id cfg"]
  by (simp add: checkpoint_save_state)

text \<open>One turn of the loop on a response with status 200.\<close>

lemma run_loop_ok_page:
  assumes "stop_after w = None" and "page_count < max_pages cfg"
    and "remote w (sent w) = Response r" and "status_code r = 200"
  obtains w3 where
    "run_loop cfg next_token False total_users page_count w =
       run_loop cfg (p_next_token (body r)) (\<not> truthy (p_next_token (body r)))
         (total_users + int (length (p_data (body r)))) (Suc page_count) w3"
    and "stop_after w3 = None" and "remote w3 = remote w" and "sent w3 = Suc (sent w)"
    and "tbl_likers w3 =
           foldl (\<lambda>rows user. insert_user cfg (tweet_id cfg) user rows) (tbl_likers w)
             (p_data (body r))"
    and "checkpoint (tweet_id cfg) w3 =
           map_option (\<lambda>c. (p_next_token (body r), \<not> truthy (p_next_token (body r)),
                              total_users + int (length (p_data (body r)))))
             (checkpoint (tweet_id cfg) w)"
    and "exports (events w3) = exports (events w)"
    and "requests (events w3) = requests (events w) @ [(clock w, fetch_params cfg next_token)]"
proof -
  let ?v1 = "snd (read_stop_flag w)"
  let ?w2 = "pace_requests cfg r
               (snd (session_get (tweet_id cfg) (fetch_params cfg next_token) ?v1))"
  let ?w3 = "snd (process_page cfg total_users (body r) ?w2)"
  have r1: "remote ?v1 (sent ?v1) = Response r"
    using assms(3) by simp
  have f: "fetch_page cfg (tweet_id cfg) next_token ?v1 = (Return (Some (body r)), ?w2)"
    by (rule fetch_page_ok [OF r1 assms(4)])
  have loop: "run_loop cfg next_token False total_users page_count w =
       run_loop cfg (p_next_token (body r)) (\<not> truthy (p_next_token (body r)))
         (total_users + int (length (p_data (body r)))) (Suc page_count) ?w3"
    by (rule run_loop_page [OF no_signal [OF assms(1)] assms(2) f])
  have l: "tbl_likers ?w3 =
           foldl (\<lambda>rows user. insert_user cfg (tweet_id cfg) user rows) (tbl_likers w)
             (p_data (body r))"
    by (simp add: process_page_tbl_likers insert_users_def)
  have c: "checkpoint (tweet_id cfg) ?w3 =
           map_option (\<lambda>c. (p_next_token (body r), \<not> truthy (p_next_token (body r)),
                              total_users + int (length (p_data (body r)))))
             (checkpoint (tweet_id cfg) w)"
    by (simp add: checkpoint_process_page)
  show ?thesis
    using loop l c assms(1) by (intro that [of ?w3]) simp_all
qed


lemma max_pages_two: "Suc 0 < max_pages cfg"
  by (simp add: max_pages_def)

lemma final_export_events:
  "requests (events (final_export cfg w)) = requests (events w)"
  "map snd (exports (events (final_export cfg w))) =
     map snd (exports (events w)) @
     (if (export_mode cfg = ''final'' \<or> export_mode cfg = ''periodic'') \<and>
         0 < count_likers (tweet_id cfg) w
      then [csv_rows (tweet_id cfg) w] else [])"
  by (simp_all add: final_export_def Let_def)

text \<open>
  Claim C1. The end-to-end scenario: the tweet is 42 and the export mode is final, the
  record store is empty and the tweet has no checkpoint, no signal arrives, and the
  remote service answers the first request with status 200 and the page
  \<open>[a, b]\<close> with the next token X, and the second with status 200 and the page
  \<open>[c]\<close> without a token, whatever the rate-limit headers, the clock and the config's
  other fields are. Then \<open>run\<close> returns; the checkpoint holds no cursor,
  \<open>done = True\<close> and the count 3; the store holds the rows of a, b and c; the run
  writes one file, whose rows are the header and the rows of a, b and c in this order;
  and it sends two requests, the first without a token and the second with the token X.
\<close>

theorem end_to_end:
  fixes cfg :: "'m config" and w :: "'m world"
  assumes "tweet_id cfg = ''42''" and "export_mode cfg = ''final''"
    and "tbl_likers w = []" and "select_state ''42'' w = None" and "stop_after w = None"
    and "remote w (sent w) = Response r1" and "status_code r1 = 200" and "body r1 = page_ab"
    and "remote w (Suc (sent w)) = Response r2" and "status_code r2 = 200"
    and "body r2 = page_c"
  shows "fst (run cfg w) = Return () \<and>
         checkpoint ''42'' (snd (run cfg w)) = Some (None, True, 3) \<and>
         tbl_likers (snd (run cfg w)) =
           [bare_row ''42'' ''a'', bare_row ''42'' ''b'', bare_row ''42'' ''c''] \<and>
         map snd (exports (events (snd (run cfg w)))) =
           map snd (exports (events w)) @
           [[header_row, csv_row ''42'' (bare_row ''42'' ''a''),
             csv_row ''42'' (bare_row ''42'' ''b''), csv_row ''42'' (bare_row ''42'' ''c'')]] \<and>
         map (\<lambda>q. pagination_token (snd q)) (requests (events (snd (run cfg w)))) =
           map (\<lambda>q. pagination_token (snd q)) (requests (events w)) @ [None, Some ''X'']"
proof -
  let ?g = "snd (get_state ''42'' w)"
  have cp: "checkpoint ''42'' w = None"
    using assms(4) by (simp add: checkpoint_def)
  have g: "fst (get_state (tweet_id cfg) w) = (None, False, 0, 0)"
    using cp assms(1) by (simp add: get_state_result)
  have cg: "checkpoint ''42'' ?g = Some (None, False, 0)"
    using cp by (simp add: checkpoint_get_state)
  have sg: "stop_after ?g = None" and rg: "remote ?g (sent ?g) = Response r1"
    using assms(5,6) by simp_all
  obtain w3 where l1: "run_loop cfg None False 0 0 ?g =
       run_loop cfg (Some ''X'') False 2 (Suc 0) w3"
    and s3: "stop_after w3 = None" and r3: "remote w3 = remote w" and n3: "sent w3 = Suc (sent w)"
    and t3: "tbl_likers w3 = [bare_row ''42'' ''a'', bare_row ''42'' ''b'']"
    and c3: "checkpoint ''42'' w3 = Some (Some ''X'', False, 2)"
    and e3: "exports (events w3) = exports (events w)"
    and q3: "requests (events w3) = requests (events w) @ [(clock w, fetch_params cfg None)]"
  proof (rule run_loop_ok_page [OF sg max_pages_pos [of cfg] rg assms(7),
        where next_token = None and total_users = 0])
    fix v
    assume a: "run_loop cfg None False 0 0 ?g =
       run_loop cfg (p_next_token (body r1)) (\<not> truthy (p_next_token (body r1)))
         (0 + int (length (p_data (body r1)))) (Suc 0) v"
      and b: "stop_after v = None" "remote v = remote ?g" "sent v = Suc (sent ?g)"
      and c: "tbl_likers v =
           foldl (\<lambda>rows user. insert_user cfg (tweet_id cfg) user rows) (tbl_likers ?g)
             (p_data (body r1))"
      and d: "checkpoint (tweet_id cfg) v =
           map_option (\<lambda>c. (p_next_token (body r1), \<not> truthy (p_next_token (body r1)),
                              0 + int (length (p_data (body r1)))))
             (checkpoint (tweet_id cfg) ?g)"
      and e: "exports (events v) = exports (events ?g)"
        "requests (events v) = requests (events ?g) @ [(clock ?g, fetch_params cfg None)]"
    show thesis
    proof (rule that [of v])
      show "run_loop cfg None False 0 0 ?g = run_loop cfg (Some ''X'') False 2 (Suc 0) v"
        using a by (simp add: assms(8) page_ab_def truthy_def)
      show "tbl_likers v = [bare_row ''42'' ''a'', bare_row ''42'' ''b'']"
        using c by (simp add: assms(1,3,8) page_ab_def insert_user_def insert_or_ignore_liker_def
            user_of_id_def bare_row_def)
      show "checkpoint ''42'' v = Some (Some ''X'', False, 2)"
        using d cg by (simp add: assms(1,8) page_ab_def truthy_def)
    qed (use b e in simp_all)
  qed
  have r3': "remote w3 (sent w3) = Response r2"
    using assms(9) r3 n3 by simp
  obtain w6 where l2: "run_loop cfg (Some ''X'') False 2 (Suc 0) w3 =
       run_loop cfg None True 3 (Suc (Suc 0)) w6"
    and t6: "tbl_likers w6 =
       [bare_row ''42'' ''a'', bare_row ''42'' ''b'', bare_row ''42'' ''c'']"
    and c6: "checkpoint ''42'' w6 = Some (None, True, 3)"
    and e6: "exports (events w6) = exports (events w)"
    and q6: "requests (events w6) =
       requests (events w) @ [(clock w, fetch_params cfg None),
                              (clock w3, fetch_params cfg (Some ''X''))]"
  proof (rule run_loop_ok_page [OF s3 max_pages_two [of cfg] r3' assms(10),
        where next_token = "Some ''X''" and total_users = 2])
    fix v
    assume a: "run_loop cfg (Some ''X'') False 2 (Suc 0) w3 =
       run_loop cfg (p_next_token (body r2)) (\<not> truthy (p_next_token (body r2)))
         (2 + int (length (p_data (body r2)))) (Suc (Suc 0)) v"
      and c: "tbl_likers v =
           foldl (\<lambda>rows user. insert_user cfg (tweet_id cfg) user rows) (tbl_likers w3)
             (p_data (body r2))"
      and d: "checkpoint (tweet_id cfg) v =
           map_option (\<lambda>c. (p_next_token (body r2), \<not> truthy (p_next_token (body r2)),
                              2 + int (length (p_data (body r2)))))
             (checkpoint (tweet_id cfg) w3)"
      and e: "exports (events v) = exports (events w3)"
        "requests (events v) =
           requests (events w3) @ [(clock w3, fetch_params cfg (Some ''X''))]"
    show thesis
    proof (rule that [of v])
      show "run_loop cfg (Some ''X'') False 2 (Suc 0) w3 =
              run_loop cfg None True 3 (Suc (Suc 0)) v"
        using a by (simp add: assms(11) page_c_def truthy_def)
      show "tbl_likers v =
              [bare_row ''42'' ''a'', bare_row ''42'' ''b'', bare_row ''42'' ''c'']"
        using c t3 by (simp add: assms(1,11) page_c_def insert_user_def
            insert_or_ignore_liker_def user_of_id_def bare_row_def)
      show "checkpoint ''42'' v = Some (None, True, 3)"
        using d c3 by (simp add: assms(1,11) page_c_def truthy_def)
    qed (use e e3 q3 in simp_all)
  qed
  have loop: "run_loop cfg None False 0 0 (snd (get_state (tweet_id cfg) w)) =
                (Return (None, True, 3, Suc (Suc 0)), w6)"
    using l1 l2 by (simp add: assms(1) run_loop_done)
  have run: "run cfg w = (Return (), final_export cfg (snd (read_stop_flag w6)))"
    by (rule run_returns [OF g loop])
  let ?w7 = "snd (read_stop_flag w6)"
  have cnt: "count_likers ''42'' ?w7 = 3"
    using t6 by (simp add: count_likers_def bare_row_def)
  have rows: "csv_rows ''42'' ?w7 =
           [header_row, csv_row ''42'' (bare_row ''42'' ''a''),
             csv_row ''42'' (bare_row ''42'' ''b''), csv_row ''42'' (bare_row ''42'' ''c'')]"
    using t6 by (simp add: csv_rows_def select_likers_def bare_row_def)
  have tok: "pagination_token (fetch_params cfg None) = None"
    "pagination_token (fetch_params cfg (Some ''X'')) = Some ''X''"
    by (simp_all add: fetch_params_token)
  show ?thesis
    using run c6 t6 e6 q6 cnt rows tok
    by (simp add: final_export_events assms(1,2))
qed


theorem end_to_end_witness:
  "tweet_id cfg_final = ''42'' \<and> export_mode cfg_final = ''final'' \<and>
   tbl_likers w_two_pages = [] \<and> select_state ''42'' w_two_pages = None \<and>
   stop_after w_two_pages = None \<and>
   fst (run cfg_final w_two_pages) = Return () \<and>
   checkpoint ''42'' (snd (run cfg_final w_two_pages)) = Some (None, True, 3) \<and>
   map l_user_id (tbl_likers (snd (run cfg_final w_two_pages))) = [''a'', ''b'', ''c''] \<and>
   map (map (\<lambda>row. row ! 1)) (map snd (exports (events (snd (run cfg_final w_two_pages))))) =
     [[CStr ''user_id'', CStr ''a'', CStr ''b'', CStr ''c'']] \<and>
   map (\<lambda>q. pagination_token (snd q)) (requests (events (snd (run cfg_final w_two_pages)))) =
     [None, Some ''X'']"
proof -
  let ?r1 = "\<lparr>status_code = 200, rate_limit_remaining = Missing, rate_limit_reset = Missing,
               body = page_ab :: unit page\<rparr>"
  let ?r2 = "\<lparr>status_code = 200, rate_limit_remaining = Missing, rate_limit_reset = Missing,
               body = page_c :: unit page\<rparr>"
  have h1: "tweet_id cfg_final = ''42''" and h2: "export_mode cfg_final = ''final''"
    by (simp_all add: cfg_final_def)
  have h3: "tbl_likers w_two_pages = []" and h4: "select_state ''42'' w_two_pages = None"
    and h5: "stop_after w_two_pages = None"
    and h6: "remote w_two_pages (sent w_two_pages) = Response ?r1"
    and h9: "remote w_two_pages (Suc (sent w_two_pages)) = Response ?r2"
    by (simp_all add: w_two_pages_def select_state_def)
  have h7: "status_code ?r1 = 200" and h8: "body ?r1 = page_ab"
    and h10: "status_code ?r2 = 200" and h11: "body ?r2 = page_c"
    by simp_all
  have e: "events w_two_pages = []"
    by (simp add: w_two_pages_def)
  have c: "map (\<lambda>row. row ! 1)
             [header_row, csv_row ''42'' (bare_row ''42'' ''a''),
              csv_row ''42'' (bare_row ''42'' ''b''), csv_row ''42'' (bare_row ''42'' ''c'')] =
           [CStr ''user_id'', CStr ''a'', CStr ''b'', CStr ''c'']"
    by (simp add: header_row_def csv_row_def bare_row_def)
  have u: "map l_user_id [bare_row ''42'' ''a'', bare_row ''42'' ''b'', bare_row ''42'' ''c''] =
           [''a'', ''b'', ''c'']"
    by (simp add: bare_row_def)
  show ?thesis
    using end_to_end [OF h1 h2 h3 h4 h5 h6 h7 h8 h9 h10 h11] h1 h2 h3 h4 h5 e c u
    by simp
qed

section \<open>Properties of the rate-limit wait\<close>















end
